theory Spec2Isabelle
  imports Complex_Main "HOL-Library.Sublist"
begin

section \<open>JavaScript strings\<close>

text \<open>
  A JavaScript string is a sequence of UTF-16 code units. The development covers the
  texts whose code units are below 256: a \<^typ>\<open>char\<close> is the code unit, read as a
  Latin-1 code point, and \<^const>\<open>length\<close> is the \<^verbatim>\<open>.length\<close> of the source.
\<close>

definition nl :: char where
  "nl = CHR 0x0A"

definition dq :: char where
  "dq = CHR 0x22"

definition bq :: char where
  "bq = CHR 0x60"

definition is_space :: "char \<Rightarrow> bool" where
  \<comment> \<open>the class \<^verbatim>\<open>\s\<close> of a regular expression, which is also what \<^verbatim>\<open>trim\<close> removes:
      TAB, LF, VT, FF, CR, SP and NBSP are its members below 256\<close>
  "is_space c = (c \<in> set [CHR 0x09, CHR 0x0A, CHR 0x0B, CHR 0x0C, CHR 0x0D, CHR 0x20, CHR 0xA0])"

definition upper_chars :: string where
  "upper_chars = ''ABCDEFGHIJKLMNOPQRSTUVWXYZ'' @
     [CHR 0xC0, CHR 0xC1, CHR 0xC2, CHR 0xC3, CHR 0xC4, CHR 0xC5, CHR 0xC6, CHR 0xC7,
      CHR 0xC8, CHR 0xC9, CHR 0xCA, CHR 0xCB, CHR 0xCC, CHR 0xCD, CHR 0xCE, CHR 0xCF,
      CHR 0xD0, CHR 0xD1, CHR 0xD2, CHR 0xD3, CHR 0xD4, CHR 0xD5, CHR 0xD6,
      CHR 0xD8, CHR 0xD9, CHR 0xDA, CHR 0xDB, CHR 0xDC, CHR 0xDD, CHR 0xDE]"

definition lower_chars :: string where
  "lower_chars = ''abcdefghijklmnopqrstuvwxyz'' @
     [CHR 0xE0, CHR 0xE1, CHR 0xE2, CHR 0xE3, CHR 0xE4, CHR 0xE5, CHR 0xE6, CHR 0xE7,
      CHR 0xE8, CHR 0xE9, CHR 0xEA, CHR 0xEB, CHR 0xEC, CHR 0xED, CHR 0xEE, CHR 0xEF,
      CHR 0xF0, CHR 0xF1, CHR 0xF2, CHR 0xF3, CHR 0xF4, CHR 0xF5, CHR 0xF6,
      CHR 0xF8, CHR 0xF9, CHR 0xFA, CHR 0xFB, CHR 0xFC, CHR 0xFD, CHR 0xFE]"

definition lower_char :: "char \<Rightarrow> char" where
  "lower_char c = (case map_of (zip upper_chars lower_chars) c of Some d \<Rightarrow> d | None \<Rightarrow> c)"

definition toLowerCase :: "string \<Rightarrow> string" where
  "toLowerCase s = map lower_char s"

definition is_az :: "char \<Rightarrow> bool" where
  \<comment> \<open>the class \<^verbatim>\<open>[a-z]\<close>\<close>
  "is_az c = (c \<in> set ''abcdefghijklmnopqrstuvwxyz'')"

definition is_letter :: "char \<Rightarrow> bool" where
  \<comment> \<open>the class \<^verbatim>\<open>[A-Za-z]\<close>\<close>
  "is_letter c = (c \<in> set ''ABCDEFGHIJKLMNOPQRSTUVWXYZabcdefghijklmnopqrstuvwxyz'')"

definition trim :: "string \<Rightarrow> string" where
  "trim s = rev (dropWhile is_space (rev (dropWhile is_space s)))"

definition substring :: "string \<Rightarrow> nat \<Rightarrow> nat \<Rightarrow> string" where
  \<comment> \<open>\<^verbatim>\<open>s.substring(a, b)\<close>: the arguments are swapped when \<^verbatim>\<open>a > b\<close> and clamped to
      the length\<close>
  "substring s a b = take (max a b - min a b) (drop (min a b) s)"

definition slice :: "'a list \<Rightarrow> nat \<Rightarrow> nat \<Rightarrow> 'a list" where
  \<comment> \<open>\<^verbatim>\<open>xs.slice(a, b)\<close> of an array, for indices that are not negative\<close>
  "slice xs a b = take (b - a) (drop a xs)"

definition js_index :: "'a list \<Rightarrow> nat \<Rightarrow> 'a option" where
  \<comment> \<open>\<^verbatim>\<open>xs[i]\<close>: \<^verbatim>\<open>undefined\<close> (here \<^const>\<open>None\<close>) out of range\<close>
  "js_index xs i = (if i < length xs then Some (xs ! i) else None)"

fun js_join :: "string \<Rightarrow> string list \<Rightarrow> string" where
  "js_join sep [] = []"
| "js_join sep [x] = x"
| "js_join sep (x # y # ys) = x @ sep @ js_join sep (y # ys)"

fun js_includes :: "string \<Rightarrow> string \<Rightarrow> bool" where
  \<comment> \<open>\<^verbatim>\<open>s.includes(t)\<close>: \<^verbatim>\<open>t\<close> occurs in \<^verbatim>\<open>s\<close> as a contiguous run\<close>
  "js_includes [] t = (t = [])"
| "js_includes (c # cs) t = (prefix t (c # cs) \<or> js_includes cs t)"

fun replace_first :: "char \<Rightarrow> char \<Rightarrow> string \<Rightarrow> string" where
  \<comment> \<open>\<^verbatim>\<open>s.replace("-", " ")\<close> with a string pattern replaces the first occurrence only\<close>
  "replace_first a b [] = []"
| "replace_first a b (c # cs) = (if c = a then b # cs else c # replace_first a b cs)"

function split_ws :: "string \<Rightarrow> string list" where
  \<comment> \<open>\<^verbatim>\<open>s.split(/\s+/)\<close>: the pieces between the maximal runs of white space; a run at
      either end leaves an empty piece there, and the empty string gives one empty piece\<close>
  "split_ws s =
     (let w = takeWhile (\<lambda>c. \<not> is_space c) s;
          r = dropWhile (\<lambda>c. \<not> is_space c) s
      in if r = [] then [w] else w # split_ws (dropWhile is_space r))"
  by pat_completeness auto
termination
proof (relation "measure length")
  fix s w r
  assume r: "r = dropWhile (\<lambda>c. \<not> is_space c) s" and ne: "r \<noteq> []"
  from ne have "is_space (hd r)"
    unfolding r using hd_dropWhile [of "\<lambda>c. \<not> is_space c" s] by simp
  with ne have "length (dropWhile is_space r) < length r"
    by (cases r) (simp_all add: le_imp_less_Suc length_dropWhile_le)
  moreover have "length r \<le> length s"
    unfolding r by (rule length_dropWhile_le)
  ultimately show "(dropWhile is_space r, s) \<in> measure length"
    by simp
qed simp

declare split_ws.simps [simp del]

definition is_term :: "char \<Rightarrow> bool" where
  \<comment> \<open>the class \<^verbatim>\<open>[.!?]\<close>\<close>
  "is_term c = (c \<in> set ''.!?'')"

function match_sentences :: "string \<Rightarrow> string list" where
  \<comment> \<open>\<^verbatim>\<open>text.match(/[^.!?]+[.!?]+/g) || []\<close>: every maximal run of one or more other
      characters that is followed by a terminator, with the whole run of terminators
      after it; a trailing run with no terminator is no match\<close>
  "match_sentences s =
     (let s1 = dropWhile is_term s;
          body = takeWhile (\<lambda>c. \<not> is_term c) s1;
          r = dropWhile (\<lambda>c. \<not> is_term c) s1
      in if r = [] then []
         else (body @ takeWhile is_term r) # match_sentences (dropWhile is_term r))"
  by pat_completeness auto
termination
proof (relation "measure length")
  fix s s1 body r
  assume s1: "s1 = dropWhile is_term s"
    and r: "r = dropWhile (\<lambda>c. \<not> is_term c) s1" and ne: "r \<noteq> []"
  from ne have "is_term (hd r)"
    unfolding r using hd_dropWhile [of "\<lambda>c. \<not> is_term c" s1] by simp
  with ne have "length (dropWhile is_term r) < length r"
    by (cases r) (simp_all add: le_imp_less_Suc length_dropWhile_le)
  moreover have "length r \<le> length s1"
    unfolding r by (rule length_dropWhile_le)
  moreover have "length s1 \<le> length s"
    unfolding s1 by (rule length_dropWhile_le)
  ultimately show "(dropWhile is_term r, s) \<in> measure length"
    by simp
qed simp

declare match_sentences.simps [simp del]

definition digit_char :: "nat \<Rightarrow> char" where
  "digit_char d = ''0123456789'' ! d"

fun show_nat :: "nat \<Rightarrow> string" where
  \<comment> \<open>the decimal digits a template literal prints for a length\<close>
  "show_nat n = (if n < 10 then [digit_char n] else show_nat (n div 10) @ [digit_char (n mod 10)])"

declare show_nat.simps [simp del]

definition new_Set :: "'a list \<Rightarrow> 'a list" where
  \<comment> \<open>\<^verbatim>\<open>[...new Set(xs)]\<close>: a set keeps the first occurrence of each value, in insertion
      order\<close>
  "new_Set xs = foldl (\<lambda>acc x. if x \<in> set acc then acc else acc @ [x]) [] xs"

section \<open>JavaScript values\<close>

datatype js_number = Finite rat | PosInf | NegInf | NaN

fun js_ge :: "js_number \<Rightarrow> rat \<Rightarrow> bool" where
  \<comment> \<open>\<^verbatim>\<open>n >= k\<close> for a finite constant \<^verbatim>\<open>k\<close>\<close>
  "js_ge (Finite x) k = (k \<le> x)"
| "js_ge PosInf k = True"
| "js_ge NegInf k = False"
| "js_ge NaN k = False"

fun js_lt :: "js_number \<Rightarrow> rat \<Rightarrow> bool" where
  \<comment> \<open>\<^verbatim>\<open>n < k\<close> for a finite constant \<^verbatim>\<open>k\<close>\<close>
  "js_lt (Finite x) k = (x < k)"
| "js_lt PosInf k = False"
| "js_lt NegInf k = True"
| "js_lt NaN k = False"

text \<open>
  The values that \<^verbatim>\<open>JSON.parse\<close> builds and that the service passes around. An object is
  its list of own properties, read with \<^const>\<open>map_of\<close>. \<^verbatim>\<open>undefined\<close> is not a JSON
  value: a JavaScript value is a \<^typ>\<open>'a option\<close> of one, \<^const>\<open>None\<close> for
  \<^verbatim>\<open>undefined\<close>.
\<close>

datatype json =
    JNull
  | JBool bool
  | JNum js_number
  | JStr string
  | JArr "json list"
  | JObj "(string \<times> json) list"

type_synonym jsval = "json option"

datatype error =
    TypeError
  | SyntaxError
  | Error string

fun truthy :: "jsval \<Rightarrow> bool" where
  "truthy None = False"
| "truthy (Some JNull) = False"
| "truthy (Some (JBool b)) = b"
| "truthy (Some (JNum n)) = (n \<noteq> Finite 0 \<and> n \<noteq> NaN)"
| "truthy (Some (JStr s)) = (s \<noteq> [])"
| "truthy (Some (JArr xs)) = True"
| "truthy (Some (JObj kvs)) = True"

fun get_prop :: "jsval \<Rightarrow> string \<Rightarrow> error + jsval" where
  \<comment> \<open>\<^verbatim>\<open>v.name\<close>, for the property names the service reads (question, options,
      correctIndex, front, back, and the names in the providers' envelopes): none of them
      is inherited from a prototype, so only an object has one, and reading a property of
      \<^verbatim>\<open>null\<close> or \<^verbatim>\<open>undefined\<close> throws\<close>
  "get_prop None k = Inl TypeError"
| "get_prop (Some JNull) k = Inl TypeError"
| "get_prop (Some (JObj kvs)) k = Inr (map_of kvs k)"
| "get_prop (Some v) k = Inr None"

definition isArray :: "jsval \<Rightarrow> bool" where
  "isArray v = (case v of Some (JArr xs) \<Rightarrow> True | _ \<Rightarrow> False)"

definition isString :: "jsval \<Rightarrow> bool" where
  \<comment> \<open>\<^verbatim>\<open>typeof v === "string"\<close>\<close>
  "isString v = (case v of Some (JStr s) \<Rightarrow> True | _ \<Rightarrow> False)"

definition isNumber :: "jsval \<Rightarrow> bool" where
  \<comment> \<open>\<^verbatim>\<open>typeof v === "number"\<close>\<close>
  "isNumber v = (case v of Some (JNum n) \<Rightarrow> True | _ \<Rightarrow> False)"

definition template_str :: "string option \<Rightarrow> string" where
  \<comment> \<open>what a template literal prints for a string, or for \<^verbatim>\<open>undefined\<close>\<close>
  "template_str v = (case v of None \<Rightarrow> ''undefined'' | Some s \<Rightarrow> s)"

section \<open>The heuristic fallback generator\<close>

definition question_obj :: "string \<Rightarrow> string list \<Rightarrow> rat \<Rightarrow> string \<Rightarrow> json" where
  "question_obj q opts ci expl =
     JObj [(''question'', JStr q), (''options'', JArr (map JStr opts)),
           (''correctIndex'', JNum (Finite ci)), (''explanation'', JStr expl)]"

definition card_obj :: "string \<Rightarrow> string \<Rightarrow> json" where
  "card_obj f b = JObj [(''front'', JStr f), (''back'', JStr b)]"

definition commonWords :: "string list" where
  \<comment> \<open>the set of generateFallbackQuiz and generateFallbackFlashcards\<close>
  "commonWords = [''the'', ''and'', ''or'', ''but'', ''in'', ''on'', ''at'', ''to'', ''for'',
                  ''of'', ''with'', ''by'']"

definition commonWords_summary :: "string list" where
  \<comment> \<open>the set of generateFallbackSummary\<close>
  "commonWords_summary = commonWords @
     [''is'', ''are'', ''was'', ''were'', ''be'', ''been'', ''have'', ''has'', ''had'']"

definition is_key_word :: "string list \<Rightarrow> string \<Rightarrow> bool" where
  \<comment> \<open>\<^verbatim>\<open>word.length > 4 && !commonWords.has(word) && /^[a-z]+$/.test(word)\<close>\<close>
  "is_key_word cw word = (length word > 4 \<and> word \<notin> set cw \<and> word \<noteq> [] \<and> list_all is_az word)"

definition keyTerms :: "string list \<Rightarrow> nat \<Rightarrow> string \<Rightarrow> string list" where
  \<comment> \<open>\<^verbatim>\<open>[...new Set(words.filter(...))].slice(0, n)\<close>\<close>
  "keyTerms cw n txt = slice (new_Set (filter (is_key_word cw) (split_ws (toLowerCase txt)))) 0 n"

definition fixed_questions :: "json list" where
  "fixed_questions =
     [question_obj ''What is the main topic discussed in this text?''
        [''The primary concepts explained in the content'',
         ''Unrelated background information'',
         ''Only historical context'',
         ''General introductory material'']
        0
        ''The text primarily focuses on explaining the main concepts and key information about the topic.'',
      question_obj ''How is the information in this text organized?''
        [''As a random collection of facts'',
         ''Through logical connections and explanations'',
         ''In strict chronological order'',
         ''As simple definitions only'']
        1
        ''The text presents information through connected ideas and detailed explanations.'',
      question_obj ''What can readers learn from this content?''
        [''Important concepts to build understanding'',
         ''Only memorization of facts'',
         ''Unrelated general knowledge'',
         ''Just historical background'']
        0
        ''The content provides key concepts that help build solid understanding of the subject.'']"

definition term_question :: "string option \<Rightarrow> json" where
  \<comment> \<open>the question pushed when there is a key term; the argument is \<^verbatim>\<open>keyTerms[0]\<close>\<close>
  "term_question k =
     question_obj ''Which concept is emphasized in the text?''
       [template_str k @ '' and related ideas'',
        ''Completely different topics'',
        ''Only basic definitions'',
        ''Historical dates and figures'']
       0
       (''The text specifically discusses '' @ template_str k @ '' and explains its importance.'')"

definition generateFallbackQuiz :: "string \<Rightarrow> json list" where
  "generateFallbackQuiz txt =
     (let kts = keyTerms commonWords 3 txt;
          questions = fixed_questions;
          questions = (if length kts > 0 then questions @ [term_question (js_index kts 0)]
                       else questions)
      in slice questions 0 4)"

definition levelIntro :: "(string \<times> string) list" where
  "levelIntro =
     [(''middle-school'', ''This content explains important ideas in simple terms.''),
      (''high-school'', ''This material covers key concepts for students to understand.''),
      (''college'', ''This content presents advanced concepts requiring detailed analysis.'')]"

text \<open>
  \<^verbatim>\<open>levelIntro[level]\<close> and \<^verbatim>\<open>levelPrompts[level]\<close> read an object literal with a key
  that the caller chooses. A key that is no own property of the literal is looked up in
  \<^verbatim>\<open>Object.prototype\<close>: eleven of its members are built-in functions, and
  \<^verbatim>\<open>__proto__\<close> gives the prototype itself. Both are truthy, and a template literal
  prints them: a built-in function as Node prints it (the language fixes this text up
  to white space), the prototype as \<^verbatim>\<open>[object Object]\<close>.
\<close>

datatype member =
    Own string
  | Native string
  | Prototype

definition object_prototype_functions :: "string list" where
  \<comment> \<open>the function members of \<^verbatim>\<open>Object.prototype\<close> other than \<^verbatim>\<open>constructor\<close>; each has
      the name of its key\<close>
  "object_prototype_functions =
     [''__defineGetter__'', ''__defineSetter__'', ''hasOwnProperty'', ''__lookupGetter__'',
      ''__lookupSetter__'', ''isPrototypeOf'', ''propertyIsEnumerable'', ''toString'',
      ''valueOf'', ''toLocaleString'']"

definition js_lookup :: "(string \<times> string) list \<Rightarrow> string \<Rightarrow> member option" where
  \<comment> \<open>\<^verbatim>\<open>obj[key]\<close> for an object literal with string values: an own property first, then
      the prototype chain; \<^const>\<open>None\<close> is \<^verbatim>\<open>undefined\<close>\<close>
  "js_lookup obj k =
     (case map_of obj k of
        Some v \<Rightarrow> Some (Own v)
      | None \<Rightarrow>
          if k = ''__proto__'' then Some Prototype
          else if k = ''constructor'' then Some (Native ''Object'')
          else if k \<in> set object_prototype_functions then Some (Native k)
          else None)"

definition member_or :: "member option \<Rightarrow> member option \<Rightarrow> member option" where
  \<comment> \<open>\<^verbatim>\<open>a || b\<close>: \<^verbatim>\<open>undefined\<close> and the empty string are falsy, a function and an object
      are truthy\<close>
  "member_or a b = (case a of None \<Rightarrow> b | Some (Own v) \<Rightarrow> (if v = [] then b else a) | Some m \<Rightarrow> a)"

definition template_member :: "member option \<Rightarrow> string" where
  \<comment> \<open>what a template literal prints for the value of a lookup\<close>
  "template_member m =
     (case m of
        None \<Rightarrow> ''undefined''
      | Some (Own v) \<Rightarrow> v
      | Some (Native name) \<Rightarrow> ''function '' @ name @ ''() { [native code] }''
      | Some Prototype \<Rightarrow> ''[object Object]'')"

definition generateFallbackSummary :: "string \<Rightarrow> string \<Rightarrow> string" where
  \<comment> \<open>part\_001\<close>
  "generateFallbackSummary txt level =
     (let sentences = match_sentences txt;
          words = split_ws (toLowerCase txt);
          kts = slice (new_Set (filter (is_key_word commonWords_summary) words)) 0 6;
          keySentences = [];
          keySentences = (if length sentences > 0 then keySentences @ [js_index sentences 0]
                          else keySentences);
          keySentences = (if length sentences > 2
                          then keySentences @ [js_index sentences (length sentences div 2)]
                          else keySentences);
          keySentences = (if length sentences > 1
                          then keySentences @ [js_index sentences (length sentences - 1)]
                          else keySentences)
      in template_member (member_or (js_lookup levelIntro level) (js_lookup levelIntro ''high-school''))
         @ [nl, nl]
         @ trim (js_join '' '' (map (\<lambda>v. case v of None \<Rightarrow> [] | Some x \<Rightarrow> x) keySentences))
         @ [nl, nl]
         @ ''Key topics include: '' @ js_join '', '' (slice kts 0 5) @ ''. This ''
         @ show_nat (length words) @ ''-word text provides ''
         @ replace_first (CHR ''-'') (CHR '' '') level
         @ '' level information that helps build understanding of the subject matter.''
         @ [nl, nl]
         @ ''The content focuses on explaining these concepts clearly and providing foundation knowledge for further learning in this area.'')"

definition generic_card :: json where
  "generic_card =
     card_obj ''What type of information does this text provide?''
       ''Educational content that explains important concepts and provides detailed information about the topic.''"

definition term_card :: "string list \<Rightarrow> string \<Rightarrow> json" where
  \<comment> \<open>the body of \<^verbatim>\<open>keyTerms.forEach\<close>: the card of one key term\<close>
  "term_card sentences tm =
     (let relevantSentence = find (\<lambda>sentence. js_includes (toLowerCase sentence) tm) sentences
      in if truthy (map_option JStr relevantSentence)
         then card_obj (''What does '' @ [dq] @ tm @ [dq] @ '' refer to in this context?'')
                (substring (trim (template_str relevantSentence)) 0 150
                 @ (if length (template_str relevantSentence) > 150 then ''...'' else []))
         else card_obj (''What is '' @ tm @ ''?'')
                ''A key concept discussed in the text that is important for understanding the subject matter.'')"

function ensure_three :: "json list \<Rightarrow> json list" where
  \<comment> \<open>\<^verbatim>\<open>while (cards.length < 3) cards.push(...)\<close>\<close>
  "ensure_three cards =
     (if length cards < 3 then ensure_three (cards @ [generic_card]) else cards)"
  by pat_completeness auto
termination
  by (relation "measure (\<lambda>cards. 3 - length cards)") auto

declare ensure_three.simps [simp del]

definition generateFallbackFlashcards :: "string \<Rightarrow> error + json list" where
  \<comment> \<open>\<^verbatim>\<open>sentences[0].trim()\<close> throws when \<^verbatim>\<open>sentences[0]\<close> is \<^verbatim>\<open>undefined\<close>\<close>
  "generateFallbackFlashcards txt =
     (let sentences = match_sentences txt;
          kts = keyTerms commonWords 5 txt;
          main = (if length sentences > 0
                  then (case js_index sentences 0 of
                          None \<Rightarrow> Inl TypeError
                        | Some s0 \<Rightarrow>
                            Inr [card_obj ''What is the main concept explained in this text?''
                                   (substring (dropWhile (\<lambda>c. \<not> is_letter c) (trim s0)) 0 150
                                    @ (if length s0 > 150 then ''...'' else []))])
                  else Inr [])
      in case main of
           Inl e \<Rightarrow> Inl e
         | Inr cards \<Rightarrow> Inr (slice (ensure_three (cards @ map (term_card sentences) kts)) 0 5))"

section \<open>The response parser\<close>

function strip_fence :: "string \<Rightarrow> string \<Rightarrow> string" where
  \<comment> \<open>\<^verbatim>\<open>s.replace(/p\s*/g, "")\<close> for a literal \<^verbatim>\<open>p\<close>: every occurrence of \<^verbatim>\<open>p\<close>, found
      from the left, goes with the white space after it\<close>
  "strip_fence p s =
     (if s = [] then []
      else if p \<noteq> [] \<and> prefix p s then strip_fence p (dropWhile is_space (drop (length p) s))
      else hd s # strip_fence p (tl s))"
  by pat_completeness auto
termination
proof (relation "measure (\<lambda>(p, s). length s)")
  fix p s :: string
  assume "s \<noteq> []" and "p \<noteq> [] \<and> prefix p s"
  then have "length (drop (length p) s) < length s"
    by (cases p) auto
  moreover have "length (dropWhile is_space (drop (length p) s)) \<le> length (drop (length p) s)"
    by (rule length_dropWhile_le)
  ultimately show "((p, dropWhile is_space (drop (length p) s)), (p, s)) \<in> measure (\<lambda>(p, s). length s)"
    by simp
qed auto

declare strip_fence.simps [simp del]

definition strip_fences :: "string \<Rightarrow> string" where
  \<comment> \<open>\<^verbatim>\<open>.replace(/```json\s*/g, "").replace(/```\s*/g, "")\<close> on the trimmed response\<close>
  "strip_fences trimmed =
     strip_fence [bq, bq, bq] (strip_fence ([bq, bq, bq] @ ''json'') trimmed)"

definition jsonMatch :: "string \<Rightarrow> string option" where
  \<comment> \<open>\<^verbatim>\<open>s.match(/\[[\s\S]*\]/)\<close>: from the first opening bracket to the last closing
      bracket after it; \<^verbatim>\<open>null\<close> (here \<^const>\<open>None\<close>) when there is no such pair\<close>
  "jsonMatch s =
     (let r = dropWhile (\<lambda>c. c \<noteq> CHR ''['') s
      in if r = [] then None
         else if CHR '']'' \<in> set (tl r)
         then Some (CHR ''['' # rev (dropWhile (\<lambda>c. c \<noteq> CHR '']'') (rev (tl r))))
         else None)"

fun filter_err :: "('a \<Rightarrow> error + bool) \<Rightarrow> 'a list \<Rightarrow> error + 'a list" where
  \<comment> \<open>\<^verbatim>\<open>xs.filter(p)\<close> for a callback that may throw: the first throw ends the filter\<close>
  "filter_err p [] = Inr []"
| "filter_err p (x # xs) =
     (case p x of
        Inl e \<Rightarrow> Inl e
      | Inr b \<Rightarrow>
          (case filter_err p xs of
             Inl e \<Rightarrow> Inl e
           | Inr ys \<Rightarrow> Inr (if b then x # ys else ys)))"

definition valid_question :: "json \<Rightarrow> error + bool" where
  \<comment> \<open>the callback of parseQuizResponse, each \<^verbatim>\<open>&&\<close> evaluated only when what is before
      it is truthy\<close>
  "valid_question q =
     (case get_prop (Some q) ''question'' of
        Inl e \<Rightarrow> Inl e
      | Inr question \<Rightarrow>
          if \<not> truthy question then Inr False
          else (case get_prop (Some q) ''options'' of
                  Inl e \<Rightarrow> Inl e
                | Inr options \<Rightarrow>
                    if \<not> truthy options then Inr False
                    else if \<not> isArray options then Inr False
                    else if \<not> (case options of Some (JArr xs) \<Rightarrow> length xs = 4 | _ \<Rightarrow> False)
                    then Inr False
                    else (case get_prop (Some q) ''correctIndex'' of
                            Inl e \<Rightarrow> Inl e
                          | Inr correctIndex \<Rightarrow>
                              if \<not> isNumber correctIndex then Inr False
                              else (case correctIndex of
                                      Some (JNum n) \<Rightarrow> Inr (js_ge n 0 \<and> js_lt n 4)
                                    | _ \<Rightarrow> Inr False))))"

definition valid_card :: "json \<Rightarrow> error + bool" where
  \<comment> \<open>the callback of parseFlashcardResponse\<close>
  "valid_card crd =
     (case get_prop (Some crd) ''front'' of
        Inl e \<Rightarrow> Inl e
      | Inr front \<Rightarrow>
          if \<not> truthy front then Inr False
          else (case get_prop (Some crd) ''back'' of
                  Inl e \<Rightarrow> Inl e
                | Inr back \<Rightarrow>
                    if \<not> truthy back then Inr False
                    else Inr (isString front \<and> isString back)))"

definition js_trim :: "jsval \<Rightarrow> error + string" where
  \<comment> \<open>\<^verbatim>\<open>response.trim()\<close> on what a provider returned: only a string has the method\<close>
  "js_trim v = (case v of Some (JStr s) \<Rightarrow> Inr (trim s) | _ \<Rightarrow> Inl TypeError)"

definition cleanResponse :: "string \<Rightarrow> string" where
  \<comment> \<open>the variable of that name when it reaches \<^verbatim>\<open>JSON.parse\<close>: the match when the
      cleaned text has one, the whole cleaned text otherwise\<close>
  "cleanResponse trimmed =
     (let cleaned = strip_fences trimmed
      in case jsonMatch cleaned of Some m \<Rightarrow> m | None \<Rightarrow> cleaned)"

definition parse_entries ::
  "(string \<Rightarrow> error + json) \<Rightarrow> (json \<Rightarrow> error + bool) \<Rightarrow> nat \<Rightarrow> string \<Rightarrow> jsval \<Rightarrow> error + json list" where
  \<comment> \<open>the body that parseQuizResponse and parseFlashcardResponse share; the first argument
      is \<^verbatim>\<open>JSON.parse\<close>, and the \<^verbatim>\<open>catch\<close> block throws again what it caught\<close>
  "parse_entries json_parse valid n msg response =
     (case js_trim response of
        Inl e \<Rightarrow> Inl e
      | Inr trimmed \<Rightarrow>
          (case json_parse (cleanResponse trimmed) of
             Inl e \<Rightarrow> Inl e
           | Inr parsed \<Rightarrow>
               (case parsed of
                  JArr entries \<Rightarrow>
                    (case filter_err valid entries of
                       Inl e \<Rightarrow> Inl e
                     | Inr survivors \<Rightarrow>
                         (if length survivors > 0 then Inr (slice survivors 0 n)
                          else Inl (Error msg)))
                | _ \<Rightarrow> Inl (Error msg))))"

definition parseQuizResponse :: "(string \<Rightarrow> error + json) \<Rightarrow> jsval \<Rightarrow> error + json list" where
  "parseQuizResponse json_parse response =
     parse_entries json_parse valid_question 4 ''No valid questions found'' response"

definition parseFlashcardResponse :: "(string \<Rightarrow> error + json) \<Rightarrow> jsval \<Rightarrow> error + json list" where
  "parseFlashcardResponse json_parse response =
     parse_entries json_parse valid_card 5 ''No valid flashcards found'' response"

section \<open>A model of JSON.parse\<close>

text \<open>
  \<^verbatim>\<open>JSON.parse\<close> belongs to the language, not to the repository: the parser above takes it
  as an argument. The model below follows the JSON grammar and is what the examples run.
  A number is its exact decimal value (the rounding to a double is not modelled), and an
  escape \<^verbatim>\<open>\uXXXX\<close> above 00FF, which is no code unit of the strings modelled here, is
  refused. The first argument of the three mutually recursive functions bounds the depth
  of the recursion; every call that returns has consumed a character, so the length of
  the text is enough.
\<close>

definition is_json_ws :: "char \<Rightarrow> bool" where
  "is_json_ws c = (c \<in> set [CHR 0x20, CHR 0x09, CHR 0x0A, CHR 0x0D])"

definition skip_ws :: "string \<Rightarrow> string" where
  "skip_ws s = dropWhile is_json_ws s"

definition is_digit :: "char \<Rightarrow> bool" where
  "is_digit c = (c \<in> set ''0123456789'')"

definition digit_val :: "char \<Rightarrow> nat" where
  "digit_val c = length (takeWhile (\<lambda>d. d \<noteq> c) ''0123456789'')"

definition digits_val :: "string \<Rightarrow> nat" where
  "digits_val ds = foldl (\<lambda>a d. 10 * a + digit_val d) 0 ds"

definition hex_val :: "char \<Rightarrow> nat option" where
  "hex_val c =
     (let i = length (takeWhile (\<lambda>d. d \<noteq> lower_char c) ''0123456789abcdef'')
      in if i < 16 then Some i else None)"

definition unescape :: "char \<Rightarrow> char option" where
  "unescape e =
     map_of [(dq, dq), (CHR 0x5C, CHR 0x5C), (CHR ''/'', CHR ''/''), (CHR ''b'', CHR 0x08),
             (CHR ''f'', CHR 0x0C), (CHR ''n'', CHR 0x0A), (CHR ''r'', CHR 0x0D),
             (CHR ''t'', CHR 0x09)] e"

definition hex4 :: "string \<Rightarrow> nat option" where
  \<comment> \<open>the code unit that four hexadecimal digits write\<close>
  "hex4 cs =
     (case map hex_val (take 4 cs) of
        [Some h3, Some h2, Some h1, Some h0] \<Rightarrow> Some (((h3 * 16 + h2) * 16 + h1) * 16 + h0)
      | _ \<Rightarrow> None)"

fun parse_chars :: "string \<Rightarrow> (string \<times> string) option" where
  \<comment> \<open>the characters of a string after its opening quote, up to the closing quote\<close>
  "parse_chars [] = None"
| "parse_chars (c # cs) =
     (if c = dq then Some ([], cs)
      else if c = CHR 0x5C then
        (case cs of
           [] \<Rightarrow> None
         | e # cs' \<Rightarrow>
             if e = CHR ''u'' then
               (case hex4 cs' of
                  None \<Rightarrow> None
                | Some code \<Rightarrow>
                    if code < 256
                    then map_option (\<lambda>(str, r). (char_of code # str, r)) (parse_chars (drop 4 cs'))
                    else None)
             else (case unescape e of
                     None \<Rightarrow> None
                   | Some d \<Rightarrow> map_option (\<lambda>(str, r). (d # str, r)) (parse_chars cs')))
      else if (of_char c :: nat) < 32 then None
      else map_option (\<lambda>(str, r). (c # str, r)) (parse_chars cs))"

definition parse_number :: "string \<Rightarrow> (rat \<times> string) option" where
  "parse_number s =
     (let neg = (s \<noteq> [] \<and> hd s = CHR ''-'');
          s1 = (if neg then tl s else s);
          ip = (if s1 \<noteq> [] \<and> hd s1 = CHR ''0'' then ''0'' else takeWhile is_digit s1);
          s2 = drop (length ip) s1;
          has_frac = (s2 \<noteq> [] \<and> hd s2 = CHR ''.'');
          fp = (if has_frac then takeWhile is_digit (tl s2) else []);
          s3 = (if has_frac then drop (length fp) (tl s2) else s2);
          has_exp = (s3 \<noteq> [] \<and> (hd s3 = CHR ''e'' \<or> hd s3 = CHR ''E''));
          s4 = (if has_exp then tl s3 else s3);
          eneg = (has_exp \<and> s4 \<noteq> [] \<and> hd s4 = CHR ''-'');
          s5 = (if has_exp \<and> s4 \<noteq> [] \<and> (hd s4 = CHR ''-'' \<or> hd s4 = CHR ''+'') then tl s4 else s4);
          ep = (if has_exp then takeWhile is_digit s5 else []);
          s6 = drop (length ep) s5;
          mantissa = of_nat (digits_val ip) + of_nat (digits_val fp) / 10 ^ length fp;
          scaled = (if eneg then mantissa / 10 ^ digits_val ep else mantissa * 10 ^ digits_val ep)
      in if ip = [] \<or> (has_frac \<and> fp = []) \<or> (has_exp \<and> ep = []) then None
         else Some (if neg then - scaled else scaled, s6))"

fun obj_put :: "(string \<times> json) list \<Rightarrow> string \<Rightarrow> json \<Rightarrow> (string \<times> json) list" where
  \<comment> \<open>a repeated key keeps its place and takes the later value\<close>
  "obj_put [] k v = [(k, v)]"
| "obj_put (p # ps) k v = (if fst p = k then (k, v) # ps else p # obj_put ps k v)"

fun parse_value :: "nat \<Rightarrow> string \<Rightarrow> (json \<times> string) option"
  and parse_elements :: "nat \<Rightarrow> json list \<Rightarrow> string \<Rightarrow> (json list \<times> string) option"
  and parse_members ::
    "nat \<Rightarrow> (string \<times> json) list \<Rightarrow> string \<Rightarrow> ((string \<times> json) list \<times> string) option"
where
  "parse_value 0 s = None"
| "parse_value (Suc n) s =
     (if s = [] then None
      else if hd s = CHR ''['' then
        (let t = skip_ws (tl s)
         in if t \<noteq> [] \<and> hd t = CHR '']'' then Some (JArr [], tl t)
            else map_option (\<lambda>(xs, r). (JArr xs, r)) (parse_elements n [] t))
      else if hd s = CHR ''{'' then
        (let t = skip_ws (tl s)
         in if t \<noteq> [] \<and> hd t = CHR ''}'' then Some (JObj [], tl t)
            else map_option (\<lambda>(kvs, r). (JObj kvs, r)) (parse_members n [] t))
      else if hd s = dq then map_option (\<lambda>(str, r). (JStr str, r)) (parse_chars (tl s))
      else if prefix ''true'' s then Some (JBool True, drop 4 s)
      else if prefix ''false'' s then Some (JBool False, drop 5 s)
      else if prefix ''null'' s then Some (JNull, drop 4 s)
      else map_option (\<lambda>(x, r). (JNum (Finite x), r)) (parse_number s))"
| "parse_elements 0 acc s = None"
| "parse_elements (Suc n) acc s =
     (case parse_value n s of
        None \<Rightarrow> None
      | Some (v, r) \<Rightarrow>
          (let t = skip_ws r
           in if t \<noteq> [] \<and> hd t = CHR '','' then parse_elements n (acc @ [v]) (skip_ws (tl t))
              else if t \<noteq> [] \<and> hd t = CHR '']'' then Some (acc @ [v], tl t)
              else None))"
| "parse_members 0 acc s = None"
| "parse_members (Suc n) acc s =
     (if s \<noteq> [] \<and> hd s = dq then
        (case parse_chars (tl s) of
           None \<Rightarrow> None
         | Some (k, r) \<Rightarrow>
             (let t = skip_ws r
              in if t \<noteq> [] \<and> hd t = CHR '':'' then
                   (case parse_value n (skip_ws (tl t)) of
                      None \<Rightarrow> None
                    | Some (v, r2) \<Rightarrow>
                        (let u = skip_ws r2
                         in if u \<noteq> [] \<and> hd u = CHR '','' then
                              parse_members n (obj_put acc k v) (skip_ws (tl u))
                            else if u \<noteq> [] \<and> hd u = CHR ''}'' then Some (obj_put acc k v, tl u)
                            else None))
                 else None))
      else None)"

definition JSON_parse :: "string \<Rightarrow> error + json" where
  "JSON_parse s =
     (case parse_value (Suc (length s)) (skip_ws s) of
        None \<Rightarrow> Inl SyntaxError
      | Some (v, r) \<Rightarrow> if skip_ws r = [] then Inr v else Inl SyntaxError)"

section \<open>Provider clients and the fallback chain (part\_001)\<close>

text \<open>
  The network is an oracle: what \<^verbatim>\<open>fetch\<close> gives for each call of one request. The
  primary provider may be called again, so its answer depends on the retry count of the
  call. A call leaves an event in the trace of the request, and so does every wait.
\<close>

datatype provider = Gemini | Groq | Cohere

datatype event = Call provider | Wait nat

record http_response =
  status :: nat
  body :: "json option"

definition ok :: "http_response \<Rightarrow> bool" where
  \<comment> \<open>\<^verbatim>\<open>response.ok\<close>\<close>
  "ok response = (200 \<le> status response \<and> status response \<le> 299)"

datatype fetch_result = Rejected | Resolved http_response

record network =
  gemini :: "string \<Rightarrow> nat \<Rightarrow> fetch_result"
  groq :: "string \<Rightarrow> fetch_result"
  cohere :: "string \<Rightarrow> fetch_result"

record AIService =
  googleApiKey :: "string option"
  groqApiKey :: "string option"
  cohereApiKey :: "string option"
  requestDelay :: nat

definition new_AIService :: "(string \<Rightarrow> string option) \<Rightarrow> AIService" where
  \<comment> \<open>the constructor, from \<^verbatim>\<open>process.env\<close>\<close>
  "new_AIService env =
     \<lparr>googleApiKey = env ''GOOGLE_API_KEY'', groqApiKey = env ''GROQ_API_KEY'',
      cohereApiKey = env ''COHERE_API_KEY'', requestDelay = 2000\<rparr>"

definition configured :: "string option \<Rightarrow> bool" where
  \<comment> \<open>a key is truthy: set, and not the empty string\<close>
  "configured k = (case k of None \<Rightarrow> False | Some s \<Rightarrow> s \<noteq> [])"

definition bind_err :: "error + 'a \<Rightarrow> ('a \<Rightarrow> error + 'b) \<Rightarrow> error + 'b" where
  "bind_err m f = (case m of Inl e \<Rightarrow> Inl e | Inr x \<Rightarrow> f x)"

definition nullish :: "jsval \<Rightarrow> bool" where
  "nullish v = (v = None \<or> v = Some JNull)"

definition js_index0 :: "jsval \<Rightarrow> jsval" where
  \<comment> \<open>\<^verbatim>\<open>v[0]\<close> of a value that is neither \<^verbatim>\<open>null\<close> nor \<^verbatim>\<open>undefined\<close>\<close>
  "js_index0 v =
     (case v of
        Some (JArr xs) \<Rightarrow> js_index xs 0
      | Some (JStr str) \<Rightarrow> (if str = [] then None else Some (JStr [hd str]))
      | Some (JObj kvs) \<Rightarrow> map_of kvs ''0''
      | _ \<Rightarrow> None)"

definition get_index0 :: "jsval \<Rightarrow> error + jsval" where
  \<comment> \<open>\<^verbatim>\<open>v[0]\<close>\<close>
  "get_index0 v = (if nullish v then Inl TypeError else Inr (js_index0 v))"

definition opt_prop :: "jsval \<Rightarrow> string \<Rightarrow> jsval" where
  \<comment> \<open>\<^verbatim>\<open>v?.name\<close>\<close>
  "opt_prop v k = (if nullish v then None else (case get_prop v k of Inl e \<Rightarrow> None | Inr x \<Rightarrow> x))"

definition opt_index0 :: "jsval \<Rightarrow> jsval" where
  \<comment> \<open>\<^verbatim>\<open>v?.[0]\<close>\<close>
  "opt_index0 v = (if nullish v then None else js_index0 v)"

definition response_json :: "http_response \<Rightarrow> error + json" where
  \<comment> \<open>\<^verbatim>\<open>await response.json()\<close>\<close>
  "response_json response = (case body response of None \<Rightarrow> Inl SyntaxError | Some v \<Rightarrow> Inr v)"

definition errorData :: "http_response \<Rightarrow> json" where
  \<comment> \<open>\<^verbatim>\<open>await response.json().catch(() => ({}))\<close>\<close>
  "errorData response = (case body response of None \<Rightarrow> JObj [] | Some v \<Rightarrow> v)"

definition api_error :: "string \<Rightarrow> http_response \<Rightarrow> error" where
  \<comment> \<open>the error of a response that is not ok. Reading the message of \<^verbatim>\<open>errorData\<close>
      throws when the body is \<^verbatim>\<open>null\<close>. The message after the provider's name is not
      modelled, so a body whose message cannot be printed in the template (one that
      overrides \<^verbatim>\<open>toString\<close>) is outside the model; every caller drops the error it
      catches\<close>
  "api_error name response =
     (case get_prop (Some (errorData response)) ''error'' of
        Inl e \<Rightarrow> e
      | Inr v \<Rightarrow> Error (name @ '' API error''))"

definition gemini_text :: "http_response \<Rightarrow> error + jsval" where
  \<comment> \<open>the envelope of an ok response of Gemini\<close>
  "gemini_text response =
     bind_err (response_json response) (\<lambda>data.
     bind_err (get_prop (Some data) ''candidates'') (\<lambda>candidates.
       let txt = opt_prop (opt_index0 (opt_prop (opt_prop (opt_index0 candidates) ''content'')
                   ''parts'')) ''text''
       in if \<not> truthy txt then Inl (Error ''Invalid Gemini API response'') else Inr txt))"

function makeGeminiRequest ::
  "AIService \<Rightarrow> network \<Rightarrow> string \<Rightarrow> nat \<Rightarrow> (error + jsval) \<times> event list" where
  "makeGeminiRequest svc net prompt retryCount =
     (if \<not> configured (googleApiKey svc) then (Inl (Error ''Google API key not configured''), [])
      else (case gemini net prompt retryCount of
              Rejected \<Rightarrow> (Inl TypeError, [Call Gemini])
            | Resolved response \<Rightarrow>
                if \<not> ok response then
                  (if status response = 429 \<and> retryCount < 2 then
                     (let again = makeGeminiRequest svc net prompt (retryCount + 1)
                      in (fst again,
                          [Call Gemini, Wait (requestDelay svc * (retryCount + 1))] @ snd again))
                   else (Inl (api_error ''Gemini'' response), [Call Gemini]))
                else (gemini_text response, [Call Gemini])))"
  by pat_completeness auto
termination
  by (relation "measure (\<lambda>(svc, net, prompt, retryCount). 2 - retryCount)") auto

declare makeGeminiRequest.simps [simp del]

definition makeGroqRequest :: "AIService \<Rightarrow> network \<Rightarrow> string \<Rightarrow> (error + jsval) \<times> event list" where
  "makeGroqRequest svc net prompt =
     (if \<not> configured (groqApiKey svc) then (Inl (Error ''Groq API key not configured''), [])
      else (case groq net prompt of
              Rejected \<Rightarrow> (Inl TypeError, [Call Groq])
            | Resolved response \<Rightarrow>
                if \<not> ok response then (Inl (api_error ''Groq'' response), [Call Groq])
                else (bind_err (response_json response) (\<lambda>data.
                      bind_err (get_prop (Some data) ''choices'') (\<lambda>choices.
                      bind_err (get_index0 choices) (\<lambda>choice.
                      bind_err (get_prop choice ''message'') (\<lambda>message.
                        get_prop message ''content'')))),
                      [Call Groq])))"

definition makeCohereRequest :: "AIService \<Rightarrow> network \<Rightarrow> string \<Rightarrow> (error + jsval) \<times> event list" where
  \<comment> \<open>the error of a response that is not ok reads \<^verbatim>\<open>errorData.message\<close>, which throws on
      the same bodies as \<^verbatim>\<open>errorData.error\<close>\<close>
  "makeCohereRequest svc net prompt =
     (if \<not> configured (cohereApiKey svc) then (Inl (Error ''Cohere API key not configured''), [])
      else (case cohere net prompt of
              Rejected \<Rightarrow> (Inl TypeError, [Call Cohere])
            | Resolved response \<Rightarrow>
                if \<not> ok response then (Inl (api_error ''Cohere'' response), [Call Cohere])
                else (bind_err (response_json response) (\<lambda>data.
                      bind_err (get_prop (Some data) ''generations'') (\<lambda>generations.
                      bind_err (get_index0 generations) (\<lambda>generation.
                        get_prop generation ''text''))),
                      [Call Cohere])))"

definition try_provider ::
  "bool \<Rightarrow> (error + jsval) \<times> event list \<Rightarrow> jsval option \<times> event list" where
  \<comment> \<open>one \<^verbatim>\<open>try { if (key) return await request } catch (error) { log }\<close> block:
      \<^const>\<open>Some\<close> of what the provider returned, or \<^const>\<open>None\<close> when the block falls
      through (no key, or an error caught and logged)\<close>
  "try_provider has_key request =
     (if has_key
      then (case fst request of Inr v \<Rightarrow> (Some v, snd request) | Inl e \<Rightarrow> (None, snd request))
      else (None, []))"

definition makeRequest ::
  "AIService \<Rightarrow> network \<Rightarrow> string \<Rightarrow> nat \<Rightarrow> (error + jsval) \<times> event list" where
  "makeRequest svc net prompt retryCount =
     (case try_provider (configured (googleApiKey svc))
             (makeGeminiRequest svc net prompt retryCount) of
        (Some v, tr1) \<Rightarrow> (Inr v, tr1)
      | (None, tr1) \<Rightarrow>
          (case try_provider (configured (groqApiKey svc)) (makeGroqRequest svc net prompt) of
             (Some v, tr2) \<Rightarrow> (Inr v, tr1 @ tr2)
           | (None, tr2) \<Rightarrow>
               (case try_provider (configured (cohereApiKey svc))
                       (makeCohereRequest svc net prompt) of
                  (Some v, tr3) \<Rightarrow> (Inr v, tr1 @ tr2 @ tr3)
                | (None, tr3) \<Rightarrow>
                    (Inl (Error ''All AI services failed''), tr1 @ tr2 @ tr3))))"

section \<open>The generation operations (part\_001)\<close>

text \<open>
  An operation builds its prompt, asks the chain, and on any error of the chain or of the
  parser returns what the fallback generator gives. The operations are modelled by the
  value they return: the one-second wait before a quiz or flashcard request and the
  trace of the chain do not change it.
\<close>

definition try_catch :: "error + 'a \<Rightarrow> (error \<Rightarrow> error + 'a) \<Rightarrow> error + 'a" where
  \<comment> \<open>\<^verbatim>\<open>try { body } catch (error) { handler }\<close>\<close>
  "try_catch m handler = (case m of Inl e \<Rightarrow> handler e | Inr x \<Rightarrow> Inr x)"

definition levelPrompts :: "(string \<times> string) list" where
  "levelPrompts =
     [(''middle-school'', ''Explain this using simple words a 12-year-old would understand''),
      (''high-school'', ''Explain this clearly for a high school student with helpful analogies''),
      (''college'', ''Provide a comprehensive college-level explanation'')]"

definition summary_prompt :: "string \<Rightarrow> string \<Rightarrow> string" where
  "summary_prompt txt level =
     ''You are an expert tutor. '' @ template_member (js_lookup levelPrompts level) @ ''.'' @ [nl, nl]
     @ ''Create a clear, engaging summary of this text in under 300 words:'' @ [nl, nl]
     @ substring txt 0 3000 @ [nl, nl]
     @ ''Make it educational and accessible for '' @ replace_first (CHR ''-'') (CHR '' '') level
     @ '' students.''"

definition quiz_prompt :: "string \<Rightarrow> string" where
  "quiz_prompt txt =
     js_join [nl]
       [''Create exactly 4 multiple-choice questions from this text.'',
        [],
        ''Return ONLY a valid JSON array in this format:'',
        ''['',
        ''  {'',
        ''    \"question\": \"Question text here?\",'',
        ''    \"options\": [\"Option A\", \"Option B\", \"Option C\", \"Option D\"],'',
        ''    \"correctIndex\": 0,'',
        ''    \"explanation\": \"Why this answer is correct\"'',
        ''  }'',
        '']'',
        [],
        ''No other text, just the JSON array.'',
        [],
        ''Text: '' @ substring txt 0 2500]"

definition flashcard_prompt :: "string \<Rightarrow> string" where
  "flashcard_prompt txt =
     js_join [nl]
       [''Create exactly 5 study flashcards from this text.'',
        [],
        ''Return ONLY a valid JSON array in this format:'',
        ''['',
        ''  {'',
        ''    \"front\": \"Question or key term\",'',
        ''    \"back\": \"Clear, concise answer\"'',
        ''  }'',
        '']'',
        [],
        ''No other text, just the JSON array.'',
        [],
        ''Text: '' @ substring txt 0 2500]"

definition generateSummary :: "AIService \<Rightarrow> network \<Rightarrow> string \<Rightarrow> string \<Rightarrow> error + string" where
  "generateSummary svc net txt level =
     try_catch
       (bind_err (fst (makeRequest svc net (summary_prompt txt level) 0)) js_trim)
       (\<lambda>e. Inr (generateFallbackSummary txt level))"

definition generateQuiz ::
  "(string \<Rightarrow> error + json) \<Rightarrow> AIService \<Rightarrow> network \<Rightarrow> string \<Rightarrow> error + json list" where
  "generateQuiz json_parse svc net txt =
     try_catch
       (bind_err (fst (makeRequest svc net (quiz_prompt txt) 0)) (parseQuizResponse json_parse))
       (\<lambda>e. Inr (generateFallbackQuiz txt))"

definition generateFlashcards ::
  "(string \<Rightarrow> error + json) \<Rightarrow> AIService \<Rightarrow> network \<Rightarrow> string \<Rightarrow> error + json list" where
  "generateFlashcards json_parse svc net txt =
     try_catch
       (bind_err (fst (makeRequest svc net (flashcard_prompt txt) 0))
          (parseFlashcardResponse json_parse))
       (\<lambda>e. generateFallbackFlashcards txt)"

section \<open>The service of server.js\<close>

text \<open>
  The class of server.js has one provider and its own \<^verbatim>\<open>makeRequest\<close>. Its
  \<^verbatim>\<open>generateQuiz\<close> has the text of the one above, but the class declares no
  \<^verbatim>\<open>generateFallbackQuiz\<close>: in the \<^verbatim>\<open>catch\<close> block, \<^verbatim>\<open>this.generateFallbackQuiz\<close> is
  \<^verbatim>\<open>undefined\<close>, and calling it throws a TypeError out of the operation.
\<close>

record AIService_server =
  apiKey :: "string option"
  requestDelay_server :: nat

definition new_AIService_server :: "(string \<Rightarrow> string option) \<Rightarrow> AIService_server" where
  "new_AIService_server env = \<lparr>apiKey = env ''GOOGLE_API_KEY'', requestDelay_server = 2000\<rparr>"

function makeRequest_server ::
  "AIService_server \<Rightarrow> (string \<Rightarrow> nat \<Rightarrow> fetch_result) \<Rightarrow> string \<Rightarrow> nat
     \<Rightarrow> (error + jsval) \<times> event list" where
  \<comment> \<open>the \<^verbatim>\<open>catch\<close> block around the request logs and throws again\<close>
  "makeRequest_server svc fetch prompt retryCount =
     (if \<not> configured (apiKey svc) then (Inl (Error ''API key not configured''), [])
      else (case fetch prompt retryCount of
              Rejected \<Rightarrow> (Inl TypeError, [Call Gemini])
            | Resolved response \<Rightarrow>
                if \<not> ok response then
                  (if status response = 429 \<and> retryCount < 2 then
                     (let again = makeRequest_server svc fetch prompt (retryCount + 1)
                      in (fst again,
                          [Call Gemini, Wait (requestDelay_server svc * (retryCount + 1))]
                          @ snd again))
                   else (Inl (api_error ''Gemini'' response), [Call Gemini]))
                else (case gemini_text response of
                        Inl (Error msg) \<Rightarrow> (Inl (Error ''Invalid API response''), [Call Gemini])
                      | r \<Rightarrow> (r, [Call Gemini]))))"
  by pat_completeness auto
termination
  by (relation "measure (\<lambda>(svc, fetch, prompt, retryCount). 2 - retryCount)") auto

declare makeRequest_server.simps [simp del]

definition generateQuiz_server ::
  "(string \<Rightarrow> error + json) \<Rightarrow> AIService_server \<Rightarrow> (string \<Rightarrow> nat \<Rightarrow> fetch_result) \<Rightarrow> string
     \<Rightarrow> error + json list" where
  "generateQuiz_server json_parse svc fetch txt =
     try_catch
       (bind_err (fst (makeRequest_server svc fetch (quiz_prompt txt) 0))
          (parseQuizResponse json_parse))
       (\<lambda>e. Inl TypeError)"

definition generateFallbackSummary_server :: "string \<Rightarrow> string \<Rightarrow> string" where
  \<comment> \<open>the fallback summary of server.js: the sentences and key terms of the one of
      part\_001, in another template\<close>
  "generateFallbackSummary_server txt level =
     (let sentences = match_sentences txt;
          words = split_ws (toLowerCase txt);
          kts = slice (new_Set (filter (is_key_word commonWords_summary) words)) 0 6;
          keySentences = [];
          keySentences = (if length sentences > 0 then keySentences @ [js_index sentences 0]
                          else keySentences);
          keySentences = (if length sentences > 2
                          then keySentences @ [js_index sentences (length sentences div 2)]
                          else keySentences);
          keySentences = (if length sentences > 1
                          then keySentences @ [js_index sentences (length sentences - 1)]
                          else keySentences)
      in ''This '' @ replace_first (CHR ''-'') (CHR '' '') level
         @ '' level content covers important concepts about '' @ js_join '', '' (slice kts 0 3)
         @ ''.'' @ [nl, nl]
         @ trim (js_join '' '' (map (\<lambda>v. case v of None \<Rightarrow> [] | Some x \<Rightarrow> x) keySentences))
         @ [nl, nl]
         @ ''The material explains these key topics in detail: '' @ js_join '', '' (slice kts 0 5)
         @ ''. Understanding these concepts helps build a solid foundation for further learning in this subject area.'')"

section \<open>The two entry points (part\_001)\<close>

text \<open>
  A handler answers with a status and an error message, or with the materials. The time
  stamp and the file's name and size in the metadata are left out. Each generation
  operation of a request has its own network oracle.
\<close>

record materials =
  originalText :: string
  summary :: string
  quiz :: "json list"
  flashcards :: "json list"
  textLength :: nat
  level :: string

datatype reply = Failure nat string | Success materials

record upload =
  mimetype :: string
  extraction :: "error + jsval"

definition allowedTypes :: "string list" where
  "allowedTypes =
     [''application/pdf'',
      ''application/vnd.openxmlformats-officedocument.wordprocessingml.document'',
      ''application/msword'',
      ''text/plain'']"

definition generate_all ::
  "(string \<Rightarrow> error + json) \<Rightarrow> AIService \<Rightarrow> network \<Rightarrow> network \<Rightarrow> network \<Rightarrow> string \<Rightarrow> jsval
     \<Rightarrow> string \<Rightarrow> reply" where
  \<comment> \<open>the three operations and the answer; an error of one of them reaches the handler's
      \<^verbatim>\<open>catch\<close> block, which answers 500 with the message given. A level that is no
      string has no \<^verbatim>\<open>replace\<close>, and generateSummary throws while it builds its prompt\<close>
  "generate_all json_parse svc net_s net_q net_f txt lvl msg =
     (case lvl of
        Some (JStr l) \<Rightarrow>
          (case generateSummary svc net_s txt l of
             Inl e \<Rightarrow> Failure 500 msg
           | Inr s \<Rightarrow>
               (case generateQuiz json_parse svc net_q txt of
                  Inl e \<Rightarrow> Failure 500 msg
                | Inr q \<Rightarrow>
                    (case generateFlashcards json_parse svc net_f txt of
                       Inl e \<Rightarrow> Failure 500 msg
                     | Inr f \<Rightarrow>
                         Success \<lparr>originalText = txt, summary = s, quiz = q, flashcards = f,
                                  textLength = length txt, level = l\<rparr>)))
      | _ \<Rightarrow> Failure 500 msg)"

definition default_level :: "jsval \<Rightarrow> jsval" where
  \<comment> \<open>\<^verbatim>\<open>const { level = "high-school" } = req.body\<close>\<close>
  "default_level lvl = (case lvl of None \<Rightarrow> Some (JStr ''high-school'') | Some v \<Rightarrow> Some v)"

definition process_text ::
  "(string \<Rightarrow> error + json) \<Rightarrow> AIService \<Rightarrow> network \<Rightarrow> network \<Rightarrow> network \<Rightarrow> jsval \<Rightarrow> jsval
     \<Rightarrow> reply" where
  \<comment> \<open>POST /api/process-text; a text that is truthy and no string has no \<^verbatim>\<open>trim\<close>\<close>
  "process_text json_parse svc net_s net_q net_f txt lvl =
     (if \<not> truthy txt then Failure 400 ''Text content is required''
      else (case txt of
              Some (JStr t) \<Rightarrow>
                if length (trim t) = 0 then Failure 400 ''Text content is required''
                else if length t > 10000
                then Failure 400 ''Text too long. Maximum 10,000 characters allowed.''
                else generate_all json_parse svc net_s net_q net_f t (default_level lvl)
                       ''Failed to process text''
            | _ \<Rightarrow> Failure 500 ''Failed to process text''))"

definition process_file ::
  "(string \<Rightarrow> error + json) \<Rightarrow> AIService \<Rightarrow> network \<Rightarrow> network \<Rightarrow> network \<Rightarrow> upload option
     \<Rightarrow> jsval \<Rightarrow> reply" where
  \<comment> \<open>POST /api/process-file; the field \<^const>\<open>extraction\<close> is what the PDF or DOCX library
      gives for the file's buffer, and a file type that the upload filter refuses ends in
      the error handler\<close>
  "process_file json_parse svc net_s net_q net_f file lvl =
     (case file of
        None \<Rightarrow> Failure 400 ''No file uploaded''
      | Some f \<Rightarrow>
          if mimetype f \<notin> set allowedTypes then Failure 500 ''Internal server error''
          else if mimetype f = ''application/pdf'' \<or> js_includes (mimetype f) ''word'' then
            (case extraction f of
               Inl e \<Rightarrow> Failure 500 ''Failed to process file''
             | Inr extractedText \<Rightarrow>
                 if \<not> truthy extractedText
                 then Failure 400 ''No text could be extracted from the file''
                 else (case extractedText of
                         Some (JStr t) \<Rightarrow>
                           if length (trim t) = 0
                           then Failure 400 ''No text could be extracted from the file''
                           else generate_all json_parse svc net_s net_q net_f
                                  (if length t > 10000 then substring t 0 10000 @ ''...'' else t)
                                  (default_level lvl) ''Failed to process file''
                       | _ \<Rightarrow> Failure 500 ''Failed to process file''))
          else Failure 400 ''Unsupported file type'')"

section \<open>Notions used in the statements\<close>

definition has_bracket_pair :: "string \<Rightarrow> bool" where
  \<comment> \<open>the text has a substring that starts with an opening bracket and ends with a closing
      bracket\<close>
  "has_bracket_pair s = (\<exists>a b c. s = a @ CHR ''['' # b @ CHR '']'' # c)"

definition array_needs_brackets :: "(string \<Rightarrow> error + json) \<Rightarrow> bool" where
  \<comment> \<open>what the statements ask of \<^verbatim>\<open>JSON.parse\<close>: only a text with a pair of brackets parses
      to an array\<close>
  "array_needs_brackets json_parse =
     (\<forall>s entries. json_parse s = Inr (JArr entries) \<longrightarrow> has_bracket_pair s)"

definition has_four_options :: "json \<Rightarrow> bool" where
  \<comment> \<open>the entry's options are a sequence of exactly 4 items\<close>
  "has_four_options q =
     (case get_prop (Some q) ''options'' of Inr (Some (JArr opts)) \<Rightarrow> length opts = 4 | _ \<Rightarrow> False)"

definition index_in_range :: "json \<Rightarrow> bool" where
  \<comment> \<open>the entry's correctIndex is a number in [0,4)\<close>
  "index_in_range q =
     (case get_prop (Some q) ''correctIndex'' of
        Inr (Some (JNum n)) \<Rightarrow> js_ge n 0 \<and> js_lt n 4
      | _ \<Rightarrow> False)"

definition question_empty :: "json \<Rightarrow> bool" where
  \<comment> \<open>the entry's question text is empty, or the entry has none\<close>
  "question_empty q =
     (case get_prop (Some q) ''question'' of
        Inr (Some (JStr s)) \<Rightarrow> s = []
      | Inr None \<Rightarrow> True
      | _ \<Rightarrow> False)"

definition calls :: "event list \<Rightarrow> provider list" where
  \<comment> \<open>the providers called, in the order of the calls\<close>
  "calls tr = concat (map (\<lambda>e. case e of Call p \<Rightarrow> [p] | Wait ms \<Rightarrow> []) tr)"

definition waits :: "event list \<Rightarrow> nat list" where
  \<comment> \<open>the delays, in the order of the waits\<close>
  "waits tr = concat (map (\<lambda>e. case e of Call p \<Rightarrow> [] | Wait ms \<Rightarrow> [ms]) tr)"

fun rank :: "provider \<Rightarrow> nat" where
  \<comment> \<open>the place of a provider in the declaration order\<close>
  "rank Gemini = 0"
| "rank Groq = 1"
| "rank Cohere = 2"

definition rate_limited :: "fetch_result \<Rightarrow> bool" where
  \<comment> \<open>the provider answers with the status 429\<close>
  "rate_limited f = (case f of Rejected \<Rightarrow> False | Resolved response \<Rightarrow> status response = 429)"

definition gemini_attempts :: "nat \<Rightarrow> nat \<Rightarrow> event list" where
  \<comment> \<open>a call of the primary provider after \<^verbatim>\<open>k\<close> retries: before the retry with count
      \<^verbatim>\<open>i + 1\<close>, a wait of the base delay times \<^verbatim>\<open>i + 1\<close>\<close>
  "gemini_attempts d k = concat (map (\<lambda>i. [Call Gemini, Wait (d * (i + 1))]) [0..<k]) @ [Call Gemini]"

definition gemini_once :: "network \<Rightarrow> string \<Rightarrow> nat \<Rightarrow> error + jsval" where
  \<comment> \<open>what one call of the primary provider gives when it is not tried again\<close>
  "gemini_once net prompt k =
     (case gemini net prompt k of
        Rejected \<Rightarrow> Inl TypeError
      | Resolved response \<Rightarrow>
          if \<not> ok response then Inl (api_error ''Gemini'' response) else gemini_text response)"

definition has_key :: "AIService \<Rightarrow> provider \<Rightarrow> bool" where
  "has_key svc p =
     configured (case p of Gemini \<Rightarrow> googleApiKey svc | Groq \<Rightarrow> groqApiKey svc
                 | Cohere \<Rightarrow> cohereApiKey svc)"

definition client ::
  "AIService \<Rightarrow> network \<Rightarrow> string \<Rightarrow> nat \<Rightarrow> provider \<Rightarrow> (error + jsval) \<times> event list" where
  "client svc net prompt retryCount p =
     (case p of
        Gemini \<Rightarrow> makeGeminiRequest svc net prompt retryCount
      | Groq \<Rightarrow> makeGroqRequest svc net prompt
      | Cohere \<Rightarrow> makeCohereRequest svc net prompt)"

fun fallback_chain ::
  "AIService \<Rightarrow> network \<Rightarrow> string \<Rightarrow> nat \<Rightarrow> provider list \<Rightarrow> (error + jsval) \<times> event list" where
  \<comment> \<open>the orchestration in the words of the specification, over a priority list: a provider
      with no credential is skipped, the first provider that returns ends the sequence,
      a failure advances to the next provider, and the end of the list is the signal
      that all providers failed\<close>
  "fallback_chain svc net prompt retryCount [] = (Inl (Error ''All AI services failed''), [])"
| "fallback_chain svc net prompt retryCount (p # ps) =
     (if \<not> has_key svc p then fallback_chain svc net prompt retryCount ps
      else (case fst (client svc net prompt retryCount p) of
              Inr v \<Rightarrow> (Inr v, snd (client svc net prompt retryCount p))
            | Inl e \<Rightarrow>
                (fst (fallback_chain svc net prompt retryCount ps),
                 snd (client svc net prompt retryCount p)
                 @ snd (fallback_chain svc net prompt retryCount ps))))"

definition offline :: network where
  \<comment> \<open>a network on which every call is rejected\<close>
  "offline = \<lparr>gemini = (\<lambda>prompt k. Rejected), groq = (\<lambda>prompt. Rejected),
              cohere = (\<lambda>prompt. Rejected)\<rparr>"

definition no_keys :: "string \<Rightarrow> string option" where
  \<comment> \<open>an environment with no provider key\<close>
  "no_keys name = None"

definition primary_and_groq_keys :: "string \<Rightarrow> string option" where
  \<comment> \<open>an environment with the keys of Gemini and Groq\<close>
  "primary_and_groq_keys name =
     (if name = ''GOOGLE_API_KEY'' then Some ''g-key''
      else if name = ''GROQ_API_KEY'' then Some ''q-key'' else None)"

definition secondary_keys :: "string \<Rightarrow> string option" where
  \<comment> \<open>an environment with the keys of Groq and Cohere\<close>
  "secondary_keys name =
     (if name = ''GROQ_API_KEY'' then Some ''q-key''
      else if name = ''COHERE_API_KEY'' then Some ''c-key'' else None)"

definition throttled :: network where
  \<comment> \<open>Gemini answers 429 to every call, and Groq returns a text\<close>
  "throttled =
     \<lparr>gemini = (\<lambda>prompt k. Resolved \<lparr>status = 429, body = None\<rparr>),
      groq = (\<lambda>prompt. Resolved
                \<lparr>status = 200,
                 body = Some (JObj [(''choices'',
                          JArr [JObj [(''message'', JObj [(''content'', JStr ''[]'')])]])])\<rparr>),
      cohere = (\<lambda>prompt. Rejected)\<rparr>"

definition groq_down :: network where
  \<comment> \<open>Groq answers 500, and Cohere returns a text\<close>
  "groq_down =
     \<lparr>gemini = (\<lambda>prompt k. Rejected),
      groq = (\<lambda>prompt. Resolved \<lparr>status = 500, body = None\<rparr>),
      cohere = (\<lambda>prompt. Resolved
                  \<lparr>status = 200,
                   body = Some (JObj [(''generations'', JArr [JObj [(''text'', JStr ''ok'')]])])\<rparr>)\<rparr>"

section \<open>Properties of the heuristic fallback generator\<close>

lemma slice0: "slice xs 0 n = take n xs"
  by (simp add: slice_def)

lemma match_sentences_Nil: "match_sentences [] = []"
  by (simp add: match_sentences.simps)

lemma split_ws_Nil: "split_ws [] = [[]]"
  by (simp add: split_ws.simps)

lemma keyTerms_Nil: "keyTerms cw n [] = []"
  by (simp add: keyTerms_def toLowerCase_def split_ws_Nil is_key_word_def new_Set_def slice0)

lemma ensure_three_eq: "ensure_three cards = cards @ replicate (3 - length cards) generic_card"
proof (induction cards rule: ensure_three.induct)
  case (1 cards)
  show ?case
  proof (cases "length cards < 3")
    case True
    then have "ensure_three cards = ensure_three (cards @ [generic_card])"
      by (subst ensure_three.simps) simp
    also have "\<dots> = (cards @ [generic_card]) @ replicate (3 - length (cards @ [generic_card])) generic_card"
      using True by (rule "1.IH")
    also have "\<dots> = cards @ replicate (3 - length cards) generic_card"
      using True by (simp add: replicate_app_Cons_same Suc_diff_Suc flip: replicate_Suc)
    finally show ?thesis .
  next
    case False
    then show ?thesis
      by (subst ensure_three.simps) simp
  qed
qed

lemma generateFallbackFlashcards_total:
  "\<exists>cards. generateFallbackFlashcards txt = Inr cards \<and> 3 \<le> length cards \<and> length cards \<le> 5"
proof -
  define sentences where "sentences = match_sentences txt"
  have "length sentences > 0 \<Longrightarrow> js_index sentences 0 \<noteq> None"
    by (simp add: js_index_def)
  then show ?thesis
    unfolding generateFallbackFlashcards_def Let_def sentences_def [symmetric]
    by (cases "js_index sentences 0") (auto simp: slice0 ensure_three_eq)
qed

lemma fallback_summary_server_on_empty_text:
  "generateFallbackSummary_server [] lvl =
     ''This '' @ replace_first (CHR ''-'') (CHR '' '') lvl
     @ '' level content covers important concepts about .'' @ [nl, nl, nl, nl]
     @ ''The material explains these key topics in detail: . Understanding these concepts helps build a solid foundation for further learning in this subject area.''"
  by (simp add: generateFallbackSummary_server_def match_sentences_Nil toLowerCase_def
      split_ws_Nil is_key_word_def new_Set_def slice0 trim_def)

text \<open>
  Claim C2, as the code has it. For every text the fallback quiz is the three fixed
  questions, followed by the question built from the first key term when the text has a
  key term: three entries without a key term, four with one. The correct indices of the
  fixed questions are 0, 1 and 0 (the second question's right answer is its second
  option); the templated question has index 0.
\<close>

theorem generateFallbackQuiz_shape:
  "generateFallbackQuiz txt =
     fixed_questions @ (case keyTerms commonWords 3 txt of [] \<Rightarrow> [] | k # ks \<Rightarrow> [term_question (Some k)])
   \<and> length (generateFallbackQuiz txt) = (if keyTerms commonWords 3 txt = [] then 3 else 4)
   \<and> map (\<lambda>q. get_prop (Some q) ''correctIndex'') (generateFallbackQuiz txt) =
       map (\<lambda>n. Inr (Some (JNum (Finite n))))
         ([0, 1, 0] @ (if keyTerms commonWords 3 txt = [] then [] else [0]))"
proof (cases "keyTerms commonWords 3 txt")
  case Nil
  then show ?thesis
    by (simp add: generateFallbackQuiz_def slice0 fixed_questions_def question_obj_def)
next
  case (Cons k ks)
  then show ?thesis
    by (simp add: generateFallbackQuiz_def slice0 fixed_questions_def question_obj_def
        term_question_def js_index_def)
qed

theorem generateFallbackQuiz_shape_witness:
  "generateFallbackQuiz ''Cats are popular pets.'' = fixed_questions @ [term_question (Some ''popular'')]
   \<and> length (generateFallbackQuiz ''Cats are popular pets.'') = 4"
proof -
  have k: "keyTerms commonWords 3 ''Cats are popular pets.'' = [''popular'']"
    by code_simp
  from generateFallbackQuiz_shape [of "''Cats are popular pets.''"]
  show ?thesis unfolding k by (simp add: fixed_questions_def)
qed

text \<open>
  Claim C2, as the specification states it, fails: already for the empty text the three
  fixed questions do not all have the correct index 0.
\<close>

theorem fallback_quiz_index_counterexample:
  "\<not> list_all (\<lambda>q. get_prop (Some q) ''correctIndex'' = Inr (Some (JNum (Finite 0))))
        (take 3 (generateFallbackQuiz []))"
  by code_simp

lemma fallback_intro_cases:
  "template_member (member_or (js_lookup levelIntro ''college'') (js_lookup levelIntro ''high-school''))
     = ''This content presents advanced concepts requiring detailed analysis.''"
  "template_member (member_or (js_lookup levelIntro ''expert'') (js_lookup levelIntro ''high-school''))
     = ''This material covers key concepts for students to understand.''"
  "template_member (member_or (js_lookup levelIntro ''constructor'') (js_lookup levelIntro ''high-school''))
     = ''function Object() { [native code] }''"
  "template_member (member_or (js_lookup levelIntro ''toString'') (js_lookup levelIntro ''high-school''))
     = ''function toString() { [native code] }''"
  "template_member (member_or (js_lookup levelIntro ''__proto__'') (js_lookup levelIntro ''high-school''))
     = ''[object Object]''"
  by (simp_all add: template_member_def member_or_def js_lookup_def levelIntro_def
      object_prototype_functions_def)

text \<open>
  Claim C7. On the empty text the three fallback operations of part\_001 return without
  a fault, for every level: the summary is a string (with no sentence and no key term in
  it, and a word count of one, the single empty piece of the split), the quiz is the
  three fixed questions, and the flashcards are three generic cards. The first sentence
  of the summary is what the lookup of the level gives: the sentence of a known level,
  the printed member for a level that names a member of \<^verbatim>\<open>Object.prototype\<close>, and the
  sentence of the high-school level otherwise (lemma \<open>fallback_intro_cases\<close>).
\<close>

theorem fallback_on_empty_text:
  "generateFallbackSummary [] lvl =
     template_member (member_or (js_lookup levelIntro lvl) (js_lookup levelIntro ''high-school''))
     @ [nl, nl, nl, nl] @ ''Key topics include: . This 1-word text provides ''
     @ replace_first (CHR ''-'') (CHR '' '') lvl
     @ '' level information that helps build understanding of the subject matter.''
     @ [nl, nl]
     @ ''The content focuses on explaining these concepts clearly and providing foundation knowledge for further learning in this area.''
   \<and> generateFallbackQuiz [] = fixed_questions
   \<and> length (generateFallbackQuiz []) = 3
   \<and> generateFallbackFlashcards [] = Inr [generic_card, generic_card, generic_card]"
proof -
  have w: "show_nat (Suc 0) = ''1''"
    by (simp add: show_nat.simps digit_char_def)
  have s: "generateFallbackSummary [] lvl =
     template_member (member_or (js_lookup levelIntro lvl) (js_lookup levelIntro ''high-school''))
     @ [nl, nl, nl, nl] @ ''Key topics include: . This 1-word text provides ''
     @ replace_first (CHR ''-'') (CHR '' '') lvl
     @ '' level information that helps build understanding of the subject matter.''
     @ [nl, nl]
     @ ''The content focuses on explaining these concepts clearly and providing foundation knowledge for further learning in this area.''"
    by (simp add: generateFallbackSummary_def match_sentences_Nil toLowerCase_def split_ws_Nil
        is_key_word_def new_Set_def slice0 trim_def w)
  have q: "generateFallbackQuiz [] = fixed_questions"
    by (simp add: generateFallbackQuiz_def keyTerms_Nil slice0 fixed_questions_def)
  have f: "generateFallbackFlashcards [] = Inr [generic_card, generic_card, generic_card]"
    by (simp add: generateFallbackFlashcards_def match_sentences_Nil keyTerms_Nil slice0
        ensure_three_eq numeral_3_eq_3)
  from s q f show ?thesis
    by (simp add: fixed_questions_def)
qed

section \<open>Properties of the response parser\<close>

lemma dropWhile_first: "c \<notin> set a \<Longrightarrow> dropWhile (\<lambda>x. x \<noteq> c) (a @ c # r) = c # r"
  by (induction a) auto

lemma jsonMatch_None_iff: "jsonMatch s = None \<longleftrightarrow> \<not> has_bracket_pair s"
proof
  assume n: "jsonMatch s = None"
  show "\<not> has_bracket_pair s"
  proof
    assume "has_bracket_pair s"
    then obtain a b c where s: "s = a @ CHR ''['' # b @ CHR '']'' # c"
      unfolding has_bracket_pair_def by blast
    have "\<exists>d. dropWhile (\<lambda>c. c \<noteq> CHR ''['') s = CHR ''['' # d @ CHR '']'' # c"
    proof (cases "CHR ''['' \<in> set a")
      case True
      then obtain a1 a2 where a: "a = a1 @ CHR ''['' # a2" and "CHR ''['' \<notin> set a1"
        by (meson split_list_first)
      then have "dropWhile (\<lambda>c. c \<noteq> CHR ''['') s = CHR ''['' # (a2 @ CHR ''['' # b) @ CHR '']'' # c"
        unfolding s a by (simp add: dropWhile_first)
      then show ?thesis by blast
    next
      case False
      then have "dropWhile (\<lambda>c. c \<noteq> CHR ''['') s = CHR ''['' # b @ CHR '']'' # c"
        unfolding s by (simp add: dropWhile_first)
      then show ?thesis by blast
    qed
    then obtain d where "dropWhile (\<lambda>c. c \<noteq> CHR ''['') s = CHR ''['' # d @ CHR '']'' # c"
      by blast
    with n show False
      by (simp add: jsonMatch_def)
  qed
next
  assume h: "\<not> has_bracket_pair s"
  show "jsonMatch s = None"
  proof (rule ccontr)
    assume "jsonMatch s \<noteq> None"
    then have r: "dropWhile (\<lambda>c. c \<noteq> CHR ''['') s \<noteq> []"
      and m: "CHR '']'' \<in> set (tl (dropWhile (\<lambda>c. c \<noteq> CHR ''['') s))"
      by (auto simp: jsonMatch_def Let_def split: if_splits)
    from r have "hd (dropWhile (\<lambda>c. c \<noteq> CHR ''['') s) = CHR ''[''"
      using hd_dropWhile [of "\<lambda>c. c \<noteq> CHR ''[''" s] by simp
    with r have d: "dropWhile (\<lambda>c. c \<noteq> CHR ''['') s = CHR ''['' # tl (dropWhile (\<lambda>c. c \<noteq> CHR ''['') s)"
      by (cases "dropWhile (\<lambda>c. c \<noteq> CHR ''['') s") simp_all
    from m obtain b c where t: "tl (dropWhile (\<lambda>c. c \<noteq> CHR ''['') s) = b @ CHR '']'' # c"
      by (meson split_list)
    have "s = takeWhile (\<lambda>c. c \<noteq> CHR ''['') s @ dropWhile (\<lambda>c. c \<noteq> CHR ''['') s"
      by simp
    then have "s = takeWhile (\<lambda>c. c \<noteq> CHR ''['') s @ CHR ''['' # b @ CHR '']'' # c"
      using d t by metis
    with h show False
      unfolding has_bracket_pair_def by blast
  qed
qed

lemma filter_err_Inr:
  "filter_err p xs = Inr ys \<Longrightarrow> ys = filter (\<lambda>x. p x = Inr True) xs"
proof (induction xs arbitrary: ys)
  case Nil
  then show ?case by simp
next
  case (Cons x xs)
  then show ?case
    by (auto split: sum.splits if_splits)
qed

lemma valid_question_True:
  "valid_question q = Inr True \<Longrightarrow> has_four_options q \<and> index_in_range q \<and> \<not> question_empty q"
  unfolding valid_question_def has_four_options_def index_in_range_def question_empty_def
  by (auto simp: isArray_def isNumber_def split: sum.splits option.splits json.splits if_splits
      elim: truthy.elims)

lemma parse_entries_Inr:
  assumes "parse_entries jp valid n msg response = Inr ys"
  shows "\<exists>s entries. response = Some (JStr s) \<and> jp (cleanResponse (trim s)) = Inr (JArr entries)
           \<and> filter_err valid entries = Inr (filter (\<lambda>x. valid x = Inr True) entries)
           \<and> filter (\<lambda>x. valid x = Inr True) entries \<noteq> []
           \<and> ys = take n (filter (\<lambda>x. valid x = Inr True) entries)"
proof -
  from assms obtain s where r: "response = Some (JStr s)"
    by (auto simp: parse_entries_def js_trim_def split: option.splits json.splits)
  from assms r obtain parsed where p: "jp (cleanResponse (trim s)) = Inr parsed"
    by (auto simp: parse_entries_def js_trim_def split: sum.splits)
  from assms r p obtain entries where e: "parsed = JArr entries"
    by (cases parsed) (auto simp: parse_entries_def js_trim_def)
  from assms r p e obtain survivors where f: "filter_err valid entries = Inr survivors"
    by (auto simp: parse_entries_def js_trim_def split: sum.splits)
  from assms r p e f have "survivors \<noteq> []" and "ys = take n survivors"
    by (auto simp: parse_entries_def js_trim_def slice_def split: if_splits)
  with r p e f filter_err_Inr [OF f] show ?thesis
    by auto
qed

subsection \<open>The model of JSON.parse gives an array only for a text with brackets\<close>

lemma skip_ws_subset: "set (skip_ws s) \<subseteq> set s"
  by (auto simp: skip_ws_def dest: set_dropWhileD)

lemma set_tl_subset: "set (tl s) \<subseteq> set s"
  by (cases s) auto

lemma set_drop_subset: "set (drop n s) \<subseteq> set s"
  by (auto dest: in_set_dropD)

lemma parse_chars_rest: "parse_chars s = Some (str, r) \<Longrightarrow> set r \<subseteq> set s"
proof (induction s arbitrary: str r rule: parse_chars.induct)
  case 1
  then show ?case by simp
next
  case (2 c cs)
  show ?case
  proof (cases "c = dq")
    case True
    with "2.prems" show ?thesis by auto
  next
    case nq: False
    show ?thesis
    proof (cases "c = CHR 0x5C")
      case True
      with nq "2.prems" obtain e cs' where cs: "cs = e # cs'"
        by (cases cs) auto
      show ?thesis
      proof (cases "e = CHR ''u''")
        case u: True
        from "2.prems" nq True cs u obtain code where h: "hex4 cs' = Some code"
          by (cases "hex4 cs'") auto
        from "2.prems" nq True cs u h have lt: "code < 256"
          by (auto split: if_splits)
        from "2.prems" nq True cs u h lt obtain str' where
          p: "parse_chars (drop 4 cs') = Some (str', r)"
          by auto
        from "2.IH"(1) [OF nq True cs u h lt p] have "set r \<subseteq> set (drop 4 cs')" .
        then show ?thesis
          using cs set_drop_subset [of 4 cs'] by auto
      next
        case nu: False
        from "2.prems" nq True cs nu obtain d where d: "unescape e = Some d"
          by (cases "unescape e") auto
        from "2.prems" nq True cs nu d obtain str' where p: "parse_chars cs' = Some (str', r)"
          by auto
        from "2.IH"(2) [OF nq True cs nu d p] show ?thesis
          using cs by auto
      qed
    next
      case False
      with nq "2.prems" have c: "\<not> (of_char c :: nat) < 32"
        by (auto split: if_splits)
      from nq False c "2.prems" obtain str' where p: "parse_chars cs = Some (str', r)"
        by auto
      from "2.IH"(3) [OF nq False c p] show ?thesis
        by auto
    qed
  qed
qed


lemma parse_number_rest:
  assumes "parse_number s = Some (x, r)"
  shows "set r \<subseteq> set s"
proof -
  define neg where "neg = (s \<noteq> [] \<and> hd s = CHR ''-'')"
  define s1 where "s1 = (if neg then tl s else s)"
  define ip where "ip = (if s1 \<noteq> [] \<and> hd s1 = CHR ''0'' then ''0'' else takeWhile is_digit s1)"
  define s2 where "s2 = drop (length ip) s1"
  define has_frac where "has_frac = (s2 \<noteq> [] \<and> hd s2 = CHR ''.'')"
  define fp where "fp = (if has_frac then takeWhile is_digit (tl s2) else [])"
  define s3 where "s3 = (if has_frac then drop (length fp) (tl s2) else s2)"
  define has_exp where "has_exp = (s3 \<noteq> [] \<and> (hd s3 = CHR ''e'' \<or> hd s3 = CHR ''E''))"
  define s4 where "s4 = (if has_exp then tl s3 else s3)"
  define s5 where "s5 = (if has_exp \<and> s4 \<noteq> [] \<and> (hd s4 = CHR ''-'' \<or> hd s4 = CHR ''+'') then tl s4 else s4)"
  define ep where "ep = (if has_exp then takeWhile is_digit s5 else [])"
  define s6 where "s6 = drop (length ep) s5"
  have "\<exists>y. parse_number s = (if ip = [] \<or> (has_frac \<and> fp = []) \<or> (has_exp \<and> ep = []) then None else Some (y, s6))"
    unfolding parse_number_def Let_def s6_def ep_def s5_def s4_def has_exp_def s3_def fp_def
      has_frac_def s2_def ip_def s1_def neg_def
    by blast
  with assms have r: "r = s6"
    by (auto split: if_splits)
  have "set s6 \<subseteq> set s5"
    unfolding s6_def by (rule set_drop_subset)
  also have "set s5 \<subseteq> set s4"
    unfolding s5_def using set_tl_subset [of s4] by auto
  also have "set s4 \<subseteq> set s3"
    unfolding s4_def using set_tl_subset [of s3] by auto
  also have "set s3 \<subseteq> set s2"
    unfolding s3_def using set_tl_subset [of s2] set_drop_subset [of "length fp" "tl s2"] by auto
  also have "set s2 \<subseteq> set s1"
    unfolding s2_def by (rule set_drop_subset)
  also have "set s1 \<subseteq> set s"
    unfolding s1_def using set_tl_subset [of s] by auto
  finally show ?thesis
    using r by simp
qed

lemma parse_rest:
  "(\<forall>s v r. parse_value n s = Some (v, r) \<longrightarrow> set r \<subseteq> set s)
   \<and> (\<forall>acc s xs r. parse_elements n acc s = Some (xs, r) \<longrightarrow> set r \<subseteq> set s \<and> CHR '']'' \<in> set s)
   \<and> (\<forall>acc s kvs r. parse_members n acc s = Some (kvs, r) \<longrightarrow> set r \<subseteq> set s)"
proof (induction n)
  case 0
  show ?case by simp
next
  case (Suc n)
  have V: "set r \<subseteq> set s" if "parse_value n s = Some (v, r)" for s v r
    using Suc that by blast
  have E: "set r \<subseteq> set s \<and> CHR '']'' \<in> set s" if "parse_elements n acc s = Some (xs, r)" for acc s xs r
    using Suc that by blast
  have M: "set r \<subseteq> set s" if "parse_members n acc s = Some (kvs, r)" for acc s kvs r
    using Suc that by blast
  have v: "set r \<subseteq> set s" if h: "parse_value (Suc n) s = Some (v, r)" for s v r
  proof -
    from h have ne: "s \<noteq> []" by (auto split: if_splits)
    consider (arr) "hd s = CHR ''[''" | (obj) "hd s \<noteq> CHR ''[''" "hd s = CHR ''{''"
      | (str) "hd s \<noteq> CHR ''[''" "hd s \<noteq> CHR ''{''" "hd s = dq"
      | (other) "hd s \<noteq> CHR ''[''" "hd s \<noteq> CHR ''{''" "hd s \<noteq> dq"
      by blast
    then show ?thesis
    proof cases
      case arr
      show ?thesis
      proof (cases "skip_ws (tl s) \<noteq> [] \<and> hd (skip_ws (tl s)) = CHR '']''")
        case True
        with h ne arr have "r = tl (skip_ws (tl s))" by simp
        then show ?thesis
          using set_tl_subset [of "skip_ws (tl s)"] skip_ws_subset [of "tl s"] set_tl_subset [of s]
          by blast
      next
        case False
        with h ne arr obtain xs where "parse_elements n [] (skip_ws (tl s)) = Some (xs, r)"
          by (auto simp: Let_def)
        from E [OF this] show ?thesis
          using skip_ws_subset [of "tl s"] set_tl_subset [of s] by blast
      qed
    next
      case obj
      show ?thesis
      proof (cases "skip_ws (tl s) \<noteq> [] \<and> hd (skip_ws (tl s)) = CHR ''}''")
        case True
        with h ne obj have "r = tl (skip_ws (tl s))" by simp
        then show ?thesis
          using set_tl_subset [of "skip_ws (tl s)"] skip_ws_subset [of "tl s"] set_tl_subset [of s]
          by blast
      next
        case False
        with h ne obj obtain kvs where "parse_members n [] (skip_ws (tl s)) = Some (kvs, r)"
          by (auto simp: Let_def)
        from M [OF this] show ?thesis
          using skip_ws_subset [of "tl s"] set_tl_subset [of s] by blast
      qed
    next
      case str
      with h ne obtain x where "parse_chars (tl s) = Some (x, r)"
        by auto
      from parse_chars_rest [OF this] show ?thesis
        using set_tl_subset [of s] by blast
    next
      case other
      with h ne have "(\<exists>k. r = drop k s) \<or> (\<exists>x. parse_number s = Some (x, r))"
        by (auto split: if_splits)
      then show ?thesis
      proof
        assume "\<exists>k. r = drop k s"
        then show ?thesis by (auto dest: in_set_dropD)
      next
        assume "\<exists>x. parse_number s = Some (x, r)"
        then show ?thesis using parse_number_rest by auto
      qed
    qed
  qed
  have e: "set r \<subseteq> set s \<and> CHR '']'' \<in> set s"
    if h: "parse_elements (Suc n) acc s = Some (xs, r)" for acc s xs r
  proof -
    from h obtain v r1 where p: "parse_value n s = Some (v, r1)"
      by (cases "parse_value n s") auto
    define t where "t = skip_ws r1"
    have ts: "set t \<subseteq> set s"
      unfolding t_def using V [OF p] skip_ws_subset [of r1] by blast
    from h p have ne: "t \<noteq> []"
      unfolding t_def by (auto simp: Let_def split: if_splits)
    show ?thesis
    proof (cases "hd t = CHR '',''")
      case True
      with h p ne have "parse_elements n (acc @ [v]) (skip_ws (tl t)) = Some (xs, r)"
        unfolding t_def by (simp add: Let_def)
      from E [OF this] show ?thesis
        using skip_ws_subset [of "tl t"] set_tl_subset [of t] ts by blast
    next
      case False
      with h p ne have c: "hd t = CHR '']''" and r: "r = tl t"
        unfolding t_def by (auto simp: Let_def split: if_splits)
      from c ne have "CHR '']'' \<in> set t"
        by (cases t) auto
      with r show ?thesis
        using set_tl_subset [of t] ts by blast
    qed
  qed
  have m: "set r \<subseteq> set s" if h: "parse_members (Suc n) acc s = Some (kvs, r)" for acc s kvs r
  proof -
    from h have ne: "s \<noteq> []" and q: "hd s = dq"
      by (auto split: if_splits)
    from h ne q obtain k r1 where p: "parse_chars (tl s) = Some (k, r1)"
      by (cases "parse_chars (tl s)") auto
    define t where "t = skip_ws r1"
    have ts: "set t \<subseteq> set s"
      unfolding t_def using parse_chars_rest [OF p] skip_ws_subset [of r1] set_tl_subset [of s]
      by blast
    from h ne q p have tn: "t \<noteq> []" and tc: "hd t = CHR '':''"
      unfolding t_def by (auto simp: Let_def split: if_splits)
    from h ne q p tn tc obtain v r2 where pv: "parse_value n (skip_ws (tl t)) = Some (v, r2)"
      unfolding t_def by (cases "parse_value n (skip_ws (tl (skip_ws r1)))") (auto simp: Let_def)
    define u where "u = skip_ws r2"
    have us: "set u \<subseteq> set s"
      unfolding u_def
      using V [OF pv] skip_ws_subset [of r2] skip_ws_subset [of "tl t"] set_tl_subset [of t] ts
      by blast
    from h ne q p tn tc pv have un: "u \<noteq> []"
      unfolding t_def u_def by (auto simp: Let_def split: if_splits)
    show ?thesis
    proof (cases "hd u = CHR '',''")
      case True
      with h ne q p tn tc pv un
      have "parse_members n (obj_put acc k v) (skip_ws (tl u)) = Some (kvs, r)"
        unfolding t_def u_def by (simp add: Let_def)
      from M [OF this] show ?thesis
        using skip_ws_subset [of "tl u"] set_tl_subset [of u] us by blast
    next
      case False
      with h ne q p tn tc pv un have "r = tl u"
        unfolding t_def u_def by (auto simp: Let_def split: if_splits)
      then show ?thesis
        using set_tl_subset [of u] us by blast
    qed
  qed
  from v e m show ?case
    by blast
qed

lemma JSON_parse_array_brackets: "array_needs_brackets JSON_parse"
  unfolding array_needs_brackets_def
proof (intro allI impI)
  fix s entries
  assume h: "JSON_parse s = Inr (JArr entries)"
  define t where "t = skip_ws s"
  from h obtain r where p: "parse_value (Suc (length s)) t = Some (JArr entries, r)"
    unfolding JSON_parse_def t_def by (auto split: option.splits if_splits)
  from p have ne: "t \<noteq> []"
    by (auto split: if_splits)
  have hd: "hd t = CHR ''[''"
  proof (rule ccontr)
    assume "hd t \<noteq> CHR ''[''"
    with p ne show False
      by (auto simp: Let_def split: if_splits)
  qed
  have "CHR '']'' \<in> set (tl t)"
  proof (cases "skip_ws (tl t) \<noteq> [] \<and> hd (skip_ws (tl t)) = CHR '']''")
    case True
    then have "CHR '']'' \<in> set (skip_ws (tl t))"
      by (cases "skip_ws (tl t)") auto
    then show ?thesis
      using skip_ws_subset [of "tl t"] by blast
  next
    case False
    with p ne hd obtain xs where "parse_elements (length s) [] (skip_ws (tl t)) = Some (xs, r)"
      by (auto simp: Let_def)
    with parse_rest [of "length s"] have "CHR '']'' \<in> set (skip_ws (tl t))"
      by blast
    then show ?thesis
      using skip_ws_subset [of "tl t"] by blast
  qed
  then obtain b c where bc: "tl t = b @ CHR '']'' # c"
    by (meson split_list)
  from ne hd have "t = CHR ''['' # tl t"
    by (cases t) auto
  with bc have "t = CHR ''['' # b @ CHR '']'' # c"
    by simp
  moreover have "s = takeWhile is_json_ws s @ t"
    unfolding t_def skip_ws_def by simp
  ultimately have "s = takeWhile is_json_ws s @ CHR ''['' # b @ CHR '']'' # c"
    by simp
  then show "has_bracket_pair s"
    unfolding has_bracket_pair_def by blast
qed

subsection \<open>The claims about the parser\<close>

text \<open>
  Claim C3, as the code has it. The parser has no error of its own for a cleaned text
  without a pair of brackets: when the search for the array finds nothing, the whole
  cleaned text goes to \<^verbatim>\<open>JSON.parse\<close>. The parser then fails in every case, with the
  error of \<^verbatim>\<open>JSON.parse\<close> when the text is no JSON, and with the error for no valid
  entries when it is (\<^verbatim>\<open>JSON.parse\<close> gives an array only for a text with brackets, so what
  it gives here is no array).
\<close>

theorem no_bracket_pair_fails:
  assumes "array_needs_brackets json_parse"
    and "\<not> has_bracket_pair (strip_fences (trim s))"
  shows "parseQuizResponse json_parse (Some (JStr s)) =
           (case json_parse (strip_fences (trim s)) of
              Inl e \<Rightarrow> Inl e
            | Inr v \<Rightarrow> Inl (Error ''No valid questions found''))
       \<and> parseFlashcardResponse json_parse (Some (JStr s)) =
           (case json_parse (strip_fences (trim s)) of
              Inl e \<Rightarrow> Inl e
            | Inr v \<Rightarrow> Inl (Error ''No valid flashcards found''))"
proof -
  from assms(2) have c: "cleanResponse (trim s) = strip_fences (trim s)"
    by (simp add: cleanResponse_def jsonMatch_None_iff [symmetric])
  have "parse_entries json_parse valid n msg (Some (JStr s)) =
          (case json_parse (strip_fences (trim s)) of Inl e \<Rightarrow> Inl e | Inr v \<Rightarrow> Inl (Error msg))"
    for valid n msg
  proof (cases "json_parse (strip_fences (trim s))")
    case (Inl e)
    then show ?thesis
      by (simp add: parse_entries_def js_trim_def c)
  next
    case (Inr v)
    with assms have "\<not> (\<exists>entries. v = JArr entries)"
      unfolding array_needs_brackets_def by blast
    with Inr show ?thesis
      by (cases v) (auto simp: parse_entries_def js_trim_def c)
  qed
  then show ?thesis
    by (simp add: parseQuizResponse_def parseFlashcardResponse_def)
qed

theorem no_bracket_pair_fails_witness:
  "array_needs_brackets JSON_parse \<and> \<not> has_bracket_pair (strip_fences (trim ''{}''))
   \<and> parseQuizResponse JSON_parse (Some (JStr ''{}'')) = Inl (Error ''No valid questions found'')
   \<and> parseFlashcardResponse JSON_parse (Some (JStr ''{}'')) = Inl (Error ''No valid flashcards found'')"
proof -
  have m: "jsonMatch (strip_fences (trim ''{}'')) = None"
    by code_simp
  then have b: "\<not> has_bracket_pair (strip_fences (trim ''{}''))"
    by (simp add: jsonMatch_None_iff)
  have p: "JSON_parse (strip_fences (trim ''{}'')) = Inr (JObj [])"
    by code_simp
  from no_bracket_pair_fails [OF JSON_parse_array_brackets b] JSON_parse_array_brackets b
  show ?thesis
    by (simp add: p)
qed

text \<open>
  Claim C3, as the specification states it, fails: two texts without brackets end in two
  different errors, both from the parsing steps after the search (the syntax error of
  \<^verbatim>\<open>JSON.parse\<close>, and the error that a text with an empty array also ends in).
\<close>

theorem no_bracket_pair_counterexample:
  "jsonMatch (strip_fences (trim ''{}'')) = None
   \<and> jsonMatch (strip_fences (trim ''hello'')) = None
   \<and> parseQuizResponse JSON_parse (Some (JStr ''{}'')) = Inl (Error ''No valid questions found'')
   \<and> parseQuizResponse JSON_parse (Some (JStr ''hello'')) = Inl SyntaxError
   \<and> parseQuizResponse JSON_parse (Some (JStr ''[]'')) = Inl (Error ''No valid questions found'')"
  by code_simp

text \<open>
  Claim C6. Whenever parseQuizResponse returns, what it returns is a subsequence of the
  array that \<^verbatim>\<open>JSON.parse\<close> gave (entries are kept unchanged and in order, none is
  repaired), and an entry whose options are not exactly 4 items, whose correctIndex is
  not a number in [0,4), or whose question is empty is not among the returned ones.
\<close>

theorem parseQuizResponse_filters:
  assumes "parseQuizResponse json_parse response = Inr ys"
  shows "\<exists>s entries. response = Some (JStr s)
           \<and> json_parse (cleanResponse (trim s)) = Inr (JArr entries)
           \<and> subseq ys entries
           \<and> (\<forall>q \<in> set entries.
                 \<not> has_four_options q \<or> \<not> index_in_range q \<or> question_empty q \<longrightarrow> q \<notin> set ys)"
proof -
  from parse_entries_Inr [OF assms [unfolded parseQuizResponse_def]]
  obtain s entries where r: "response = Some (JStr s)"
    and p: "json_parse (cleanResponse (trim s)) = Inr (JArr entries)"
    and y: "ys = take 4 (filter (\<lambda>x. valid_question x = Inr True) entries)"
    by blast
  have "prefix ys (filter (\<lambda>x. valid_question x = Inr True) entries)"
    unfolding y by (rule take_is_prefix)
  then have "subseq ys (filter (\<lambda>x. valid_question x = Inr True) entries)"
    by (rule prefix_imp_subseq)
  then have s: "subseq ys entries"
    using subseq_filter_left [of "\<lambda>x. valid_question x = Inr True" entries]
    by (rule subseq_order.order_trans)
  have "valid_question q = Inr True" if "q \<in> set ys" for q
    using that unfolding y by (auto dest: in_set_takeD)
  then have "\<forall>q \<in> set entries.
      \<not> has_four_options q \<or> \<not> index_in_range q \<or> question_empty q \<longrightarrow> q \<notin> set ys"
    using valid_question_True by blast
  with r p s show ?thesis
    by blast
qed

theorem parseQuizResponse_filters_witness:
  "parseQuizResponse JSON_parse
     (Some (JStr ''[{\"question\":\"Q?\",\"options\":[\"A\",\"B\",\"C\"],\"correctIndex\":1},{\"question\":\"R?\",\"options\":[\"A\",\"B\",\"C\",\"D\"],\"correctIndex\":1},{\"question\":\"\",\"options\":[\"A\",\"B\",\"C\",\"D\"],\"correctIndex\":1},{\"question\":\"S?\",\"options\":[\"A\",\"B\",\"C\",\"D\"],\"correctIndex\":4}]''))
   = Inr [JObj [(''question'', JStr ''R?''),
                (''options'', JArr [JStr ''A'', JStr ''B'', JStr ''C'', JStr ''D'']),
                (''correctIndex'', JNum (Finite 1))]]
   \<and> (\<exists>entries. length entries = 4
        \<and> subseq [JObj [(''question'', JStr ''R?''),
                (''options'', JArr [JStr ''A'', JStr ''B'', JStr ''C'', JStr ''D'']),
                (''correctIndex'', JNum (Finite 1))]] entries)"
proof -
  let ?r = "''[{\"question\":\"Q?\",\"options\":[\"A\",\"B\",\"C\"],\"correctIndex\":1},{\"question\":\"R?\",\"options\":[\"A\",\"B\",\"C\",\"D\"],\"correctIndex\":1},{\"question\":\"\",\"options\":[\"A\",\"B\",\"C\",\"D\"],\"correctIndex\":1},{\"question\":\"S?\",\"options\":[\"A\",\"B\",\"C\",\"D\"],\"correctIndex\":4}]''"
  let ?v = "JObj [(''question'', JStr ''R?''),
                (''options'', JArr [JStr ''A'', JStr ''B'', JStr ''C'', JStr ''D'']),
                (''correctIndex'', JNum (Finite 1))]"
  have e: "parseQuizResponse JSON_parse (Some (JStr ?r)) = Inr [?v]"
    by code_simp
  have l: "(case JSON_parse (cleanResponse (trim ?r)) of
              Inr (JArr entries) \<Rightarrow> length entries = 4 | _ \<Rightarrow> False)"
    by code_simp
  from parseQuizResponse_filters [OF e] obtain entries where
    p: "JSON_parse (cleanResponse (trim ?r)) = Inr (JArr entries)" and s: "subseq [?v] entries"
    by blast
  from l p have "length entries = 4"
    by simp
  with s e show ?thesis
    by blast
qed

text \<open>
  Claim C9. For every array that \<^verbatim>\<open>JSON.parse\<close> gave and every list of entries that
  survive the filter, when there is a survivor the parser returns a prefix of the
  survivors: the first 4 for a quiz and the first 5 for flashcards, in their order.
\<close>

theorem truncation_keeps_order:
  assumes "json_parse (cleanResponse (trim s)) = Inr (JArr entries)"
  shows "(filter_err valid_question entries = Inr survivors \<and> survivors \<noteq> [] \<longrightarrow>
            (\<exists>ys. parseQuizResponse json_parse (Some (JStr s)) = Inr ys
               \<and> prefix ys survivors \<and> length ys = min 4 (length survivors)))
       \<and> (filter_err valid_card entries = Inr cards \<and> cards \<noteq> [] \<longrightarrow>
            (\<exists>zs. parseFlashcardResponse json_parse (Some (JStr s)) = Inr zs
               \<and> prefix zs cards \<and> length zs = min 5 (length cards)))"
  using assms
  by (auto simp: parseQuizResponse_def parseFlashcardResponse_def parse_entries_def js_trim_def
      slice0 take_is_prefix)

theorem truncation_keeps_order_witness:
  "\<exists>ys zs.
     parseQuizResponse JSON_parse (Some (JStr
      ''[{\"question\":1,\"options\":[1,2,3,4],\"correctIndex\":0,\"front\":\"a\",\"back\":\"b\"},{\"question\":2,\"options\":[1,2,3,4],\"correctIndex\":0,\"front\":\"a\",\"back\":\"b\"},{\"question\":3,\"options\":[1,2,3,4],\"correctIndex\":0,\"front\":\"a\",\"back\":\"b\"},{\"question\":4,\"options\":[1,2,3,4],\"correctIndex\":0,\"front\":\"a\",\"back\":\"b\"},{\"question\":5,\"options\":[1,2,3,4],\"correctIndex\":0,\"front\":\"a\",\"back\":\"b\"},{\"question\":6,\"options\":[1,2,3,4],\"correctIndex\":0,\"front\":\"a\",\"back\":\"b\"}]'')) = Inr ys
     \<and> length ys = 4
     \<and> parseFlashcardResponse JSON_parse (Some (JStr
      ''[{\"question\":1,\"options\":[1,2,3,4],\"correctIndex\":0,\"front\":\"a\",\"back\":\"b\"},{\"question\":2,\"options\":[1,2,3,4],\"correctIndex\":0,\"front\":\"a\",\"back\":\"b\"},{\"question\":3,\"options\":[1,2,3,4],\"correctIndex\":0,\"front\":\"a\",\"back\":\"b\"},{\"question\":4,\"options\":[1,2,3,4],\"correctIndex\":0,\"front\":\"a\",\"back\":\"b\"},{\"question\":5,\"options\":[1,2,3,4],\"correctIndex\":0,\"front\":\"a\",\"back\":\"b\"},{\"question\":6,\"options\":[1,2,3,4],\"correctIndex\":0,\"front\":\"a\",\"back\":\"b\"}]'')) = Inr zs
     \<and> length zs = 5"
proof -
  let ?r = "''[{\"question\":1,\"options\":[1,2,3,4],\"correctIndex\":0,\"front\":\"a\",\"back\":\"b\"},{\"question\":2,\"options\":[1,2,3,4],\"correctIndex\":0,\"front\":\"a\",\"back\":\"b\"},{\"question\":3,\"options\":[1,2,3,4],\"correctIndex\":0,\"front\":\"a\",\"back\":\"b\"},{\"question\":4,\"options\":[1,2,3,4],\"correctIndex\":0,\"front\":\"a\",\"back\":\"b\"},{\"question\":5,\"options\":[1,2,3,4],\"correctIndex\":0,\"front\":\"a\",\"back\":\"b\"},{\"question\":6,\"options\":[1,2,3,4],\"correctIndex\":0,\"front\":\"a\",\"back\":\"b\"}]''"
  let ?es = "map (\<lambda>n. JObj [(''question'', JNum (Finite n)),
                           (''options'', JArr (map (\<lambda>k. JNum (Finite k)) [1, 2, 3, 4])),
                           (''correctIndex'', JNum (Finite 0)),
                           (''front'', JStr ''a''), (''back'', JStr ''b'')]) [1, 2, 3, 4, 5, 6]"
  have p: "JSON_parse (cleanResponse (trim ?r)) = Inr (JArr ?es)"
    by code_simp
  have q: "filter_err valid_question ?es = Inr ?es"
    by code_simp
  have c: "filter_err valid_card ?es = Inr ?es"
    by code_simp
  from truncation_keeps_order [of JSON_parse ?r ?es ?es ?es, OF p] q c show ?thesis
    by auto
qed

section \<open>Properties of the fallback chain\<close>

lemma makeGeminiRequest_2:
  "configured (googleApiKey svc) \<Longrightarrow>
   makeGeminiRequest svc net prompt (Suc (Suc 0)) =
     (gemini_once net prompt (Suc (Suc 0)), [Call Gemini])"
  by (subst makeGeminiRequest.simps)
    (auto simp: gemini_once_def split: fetch_result.splits)

lemma makeGeminiRequest_1:
  "configured (googleApiKey svc) \<Longrightarrow>
   makeGeminiRequest svc net prompt (Suc 0) =
     (if rate_limited (gemini net prompt (Suc 0))
      then (gemini_once net prompt (Suc (Suc 0)),
            [Call Gemini, Wait (requestDelay svc * 2), Call Gemini])
      else (gemini_once net prompt (Suc 0), [Call Gemini]))"
  by (subst makeGeminiRequest.simps)
    (auto simp: gemini_once_def rate_limited_def ok_def makeGeminiRequest_2 Let_def
      split: fetch_result.splits)

lemma makeGeminiRequest_0:
  "configured (googleApiKey svc) \<Longrightarrow>
   makeGeminiRequest svc net prompt 0 =
     (if rate_limited (gemini net prompt 0)
      then (if rate_limited (gemini net prompt (Suc 0))
            then (gemini_once net prompt (Suc (Suc 0)),
                  [Call Gemini, Wait (requestDelay svc), Call Gemini,
                   Wait (requestDelay svc * 2), Call Gemini])
            else (gemini_once net prompt (Suc 0),
                  [Call Gemini, Wait (requestDelay svc), Call Gemini]))
      else (gemini_once net prompt 0, [Call Gemini]))"
  by (subst makeGeminiRequest.simps)
    (auto simp: gemini_once_def rate_limited_def ok_def makeGeminiRequest_1 Let_def
      split: fetch_result.splits)

lemma makeGeminiRequest_no_key:
  "\<not> configured (googleApiKey svc) \<Longrightarrow>
   makeGeminiRequest svc net prompt k = (Inl (Error ''Google API key not configured''), [])"
  by (subst makeGeminiRequest.simps) simp

lemma gemini_attempts_simps:
  "gemini_attempts d 0 = [Call Gemini]"
  "gemini_attempts d (Suc 0) = [Call Gemini, Wait d, Call Gemini]"
  "gemini_attempts d 2 = [Call Gemini, Wait d, Call Gemini, Wait (d * 2), Call Gemini]"
  by (simp_all add: gemini_attempts_def numeral_2_eq_2)

lemma makeRequest_chain:
  "makeRequest svc net prompt retryCount = fallback_chain svc net prompt retryCount [Gemini, Groq, Cohere]"
  by (auto simp: makeRequest_def try_provider_def has_key_def client_def
      split: sum.splits prod.splits)

lemma calls_append: "calls (a @ b) = calls a @ calls b"
  by (simp add: calls_def)

lemma waits_append: "waits (a @ b) = waits a @ waits b"
  by (simp add: waits_def)

lemma calls_gemini: "\<exists>k. calls (snd (makeGeminiRequest svc net prompt retryCount)) = replicate k Gemini"
proof (induction svc net prompt retryCount rule: makeGeminiRequest.induct)
  case (1 svc net prompt retryCount)
  show ?case
  proof (cases "configured (googleApiKey svc)")
    case False
    then have "calls (snd (makeGeminiRequest svc net prompt retryCount)) = replicate 0 Gemini"
      by (simp add: makeGeminiRequest_no_key calls_def)
    then show ?thesis by blast
  next
    case True
    show ?thesis
    proof (cases "gemini net prompt retryCount")
      case Rejected
      with True have "calls (snd (makeGeminiRequest svc net prompt retryCount)) = replicate 1 Gemini"
        by (subst makeGeminiRequest.simps) (simp add: calls_def)
      then show ?thesis by blast
    next
      case (Resolved response)
      show ?thesis
      proof (cases "\<not> ok response \<and> status response = 429 \<and> retryCount < 2")
        case retry: True
        with "1.IH" [OF _ Resolved] True obtain k where
          k: "calls (snd (makeGeminiRequest svc net prompt (Suc retryCount))) = replicate k Gemini"
          by auto
        from True Resolved retry
        have "calls (snd (makeGeminiRequest svc net prompt retryCount)) = replicate (Suc k) Gemini"
          by (subst makeGeminiRequest.simps) (simp add: calls_def Let_def k [unfolded calls_def])
        then show ?thesis by blast
      next
        case False
        with True Resolved
        have "calls (snd (makeGeminiRequest svc net prompt retryCount)) = replicate 1 Gemini"
          by (subst makeGeminiRequest.simps) (auto simp: calls_def)
        then show ?thesis by blast
      qed
    qed
  qed
qed

lemma calls_groq:
  "calls (snd (makeGroqRequest svc net prompt)) = [] \<or> calls (snd (makeGroqRequest svc net prompt)) = [Groq]"
  by (auto simp: makeGroqRequest_def calls_def split: fetch_result.splits)

lemma calls_cohere:
  "calls (snd (makeCohereRequest svc net prompt)) = []
   \<or> calls (snd (makeCohereRequest svc net prompt)) = [Cohere]"
  by (auto simp: makeCohereRequest_def calls_def split: fetch_result.splits)

lemma waits_groq: "waits (snd (makeGroqRequest svc net prompt)) = []"
  by (auto simp: makeGroqRequest_def waits_def split: fetch_result.splits)

lemma waits_cohere: "waits (snd (makeCohereRequest svc net prompt)) = []"
  by (auto simp: makeCohereRequest_def waits_def split: fetch_result.splits)

lemma client_calls: "p' \<in> set (calls (snd (client svc net prompt retryCount p))) \<Longrightarrow> p' = p"
proof (cases p)
  case Gemini
  assume h: "p' \<in> set (calls (snd (client svc net prompt retryCount p)))"
  obtain k where "calls (snd (makeGeminiRequest svc net prompt retryCount)) = replicate k Gemini"
    using calls_gemini by blast
  with h Gemini show ?thesis
    by (auto simp: client_def)
next
  case Groq
  assume "p' \<in> set (calls (snd (client svc net prompt retryCount p)))"
  with Groq calls_groq [of svc net prompt] show ?thesis
    by (auto simp: client_def)
next
  case Cohere
  assume "p' \<in> set (calls (snd (client svc net prompt retryCount p)))"
  with Cohere calls_cohere [of svc net prompt] show ?thesis
    by (auto simp: client_def)
qed

lemma constant_sorted: "(\<And>x. x \<in> set xs \<Longrightarrow> x = p) \<Longrightarrow> sorted_wrt (\<lambda>p q. rank p \<le> rank q) xs"
  by (induction xs) auto

lemma client_sorted: "sorted_wrt (\<lambda>p q. rank p \<le> rank q) (calls (snd (client svc net prompt retryCount p)))"
  by (rule constant_sorted) (rule client_calls)

lemma chain_calls:
  "p \<in> set (calls (snd (fallback_chain svc net prompt retryCount ps))) \<Longrightarrow> p \<in> set ps \<and> has_key svc p"
proof (induction ps)
  case Nil
  then show ?case by (simp add: calls_def)
next
  case (Cons a ps)
  then show ?case
    by (auto simp: calls_append split: if_splits sum.splits dest: client_calls)
qed

lemma chain_sorted:
  "sorted_wrt (\<lambda>p q. rank p \<le> rank q) ps \<Longrightarrow>
   sorted_wrt (\<lambda>p q. rank p \<le> rank q) (calls (snd (fallback_chain svc net prompt retryCount ps)))"
proof (induction ps)
  case Nil
  then show ?case by (simp add: calls_def)
next
  case (Cons a ps)
  then show ?case
    by (auto simp: calls_append sorted_wrt_append client_sorted split: sum.splits
        dest!: client_calls chain_calls)
qed

lemma chain_all_fail:
  "(\<forall>p \<in> set ps. has_key svc p \<longrightarrow> (\<exists>e. fst (client svc net prompt retryCount p) = Inl e)) \<Longrightarrow>
   fst (fallback_chain svc net prompt retryCount ps) = Inl (Error ''All AI services failed'')"
  by (induction ps) auto

lemma chain_first_success:
  "distinct ps \<Longrightarrow> sorted_wrt (\<lambda>p q. rank p \<le> rank q) ps \<Longrightarrow> p \<in> set ps \<Longrightarrow> has_key svc p \<Longrightarrow>
   fst (client svc net prompt retryCount p) = Inr v \<Longrightarrow>
   (\<forall>q. rank q < rank p \<and> has_key svc q \<longrightarrow> (\<exists>e. fst (client svc net prompt retryCount q) = Inl e)) \<Longrightarrow>
   fst (fallback_chain svc net prompt retryCount ps) = Inr v
   \<and> (\<forall>q. rank p < rank q \<longrightarrow> q \<notin> set (calls (snd (fallback_chain svc net prompt retryCount ps))))"
proof (induction ps)
  case Nil
  then show ?case by simp
next
  case (Cons a ps)
  show ?case
  proof (cases "a = p")
    case True
    with Cons.prems show ?thesis
      by (auto dest: client_calls)
  next
    case False
    with Cons.prems have ps: "p \<in> set ps" and lt: "rank a \<le> rank p"
      by auto
    from False lt have "rank a < rank p"
      by (cases a; cases p) auto
    with Cons.prems have f: "has_key svc a \<longrightarrow> (\<exists>e. fst (client svc net prompt retryCount a) = Inl e)"
      by blast
    from Cons.IH [OF _ _ ps Cons.prems(4,5,6)] Cons.prems(1,2)
    have IH: "fst (fallback_chain svc net prompt retryCount ps) = Inr v
      \<and> (\<forall>q. rank p < rank q \<longrightarrow> q \<notin> set (calls (snd (fallback_chain svc net prompt retryCount ps))))"
      by simp
    with f lt show ?thesis
      by (auto simp: calls_append dest!: client_calls)
  qed
qed

lemma waits_Nil: "waits [] = []"
  by (simp add: waits_def)

lemma calls_Nil: "calls [] = []"
  by (simp add: calls_def)

lemma waits_chain_secondary: "waits (snd (fallback_chain svc net prompt retryCount [Groq, Cohere])) = []"
  by (auto simp: client_def waits_append waits_groq waits_cohere waits_Nil split: sum.splits)

lemma makeGeminiRequest_attempts:
  "configured (googleApiKey svc) \<Longrightarrow>
   makeGeminiRequest svc net prompt 0 =
     (if rate_limited (gemini net prompt 0)
      then (if rate_limited (gemini net prompt 1)
            then (gemini_once net prompt 2, gemini_attempts (requestDelay svc) 2)
            else (gemini_once net prompt 1, gemini_attempts (requestDelay svc) 1))
      else (gemini_once net prompt 0, gemini_attempts (requestDelay svc) 0))"
  unfolding One_nat_def gemini_attempts_simps
  by (simp add: makeGeminiRequest_0 numeral_2_eq_2)

lemma makeRequest_after_gemini:
  assumes "configured (googleApiKey svc)"
  shows "makeRequest svc net prompt retryCount =
     (case fst (makeGeminiRequest svc net prompt retryCount) of
        Inr v \<Rightarrow> makeGeminiRequest svc net prompt retryCount
      | Inl e \<Rightarrow>
          (fst (fallback_chain svc net prompt retryCount [Groq, Cohere]),
           snd (makeGeminiRequest svc net prompt retryCount)
           @ snd (fallback_chain svc net prompt retryCount [Groq, Cohere])))"
  using assms unfolding makeRequest_chain
  by (cases "makeGeminiRequest svc net prompt retryCount")
    (auto simp: has_key_def client_def split: sum.splits)

lemma gemini_once_rate_limited:
  "rate_limited (gemini net prompt k) \<Longrightarrow> \<exists>e. gemini_once net prompt k = Inl e"
  by (auto simp: rate_limited_def gemini_once_def ok_def split: fetch_result.splits)

lemma waits_attempts:
  "waits (gemini_attempts d 0) = []"
  "waits (gemini_attempts d (Suc 0)) = [d]"
  "waits (gemini_attempts d 2) = [d, d * 2]"
  by (simp_all add: gemini_attempts_simps waits_def)

lemma calls_attempts:
  "calls (gemini_attempts d 0) = [Gemini]"
  "calls (gemini_attempts d (Suc 0)) = [Gemini, Gemini]"
  "calls (gemini_attempts d 2) = [Gemini, Gemini, Gemini]"
  by (simp_all add: gemini_attempts_simps calls_def)

lemma count_secondary:
  "length (filter (\<lambda>p. p = Gemini) (calls (snd (fallback_chain svc net prompt retryCount [Groq, Cohere])))) = 0
   \<and> length (filter (\<lambda>p. p = Groq) (calls (snd (fallback_chain svc net prompt retryCount [Groq, Cohere])))) \<le> 1
   \<and> length (filter (\<lambda>p. p = Cohere) (calls (snd (fallback_chain svc net prompt retryCount [Groq, Cohere])))) \<le> 1"
  using calls_groq [of svc net prompt] calls_cohere [of svc net prompt]
  by (auto simp: client_def calls_append calls_Nil split: sum.splits)

text \<open>
  Claim C4. When Gemini has a key and answers the first call of a request with 429, the
  request calls it again once or twice and no more (three calls at most); the wait
  before the retry with count \<^verbatim>\<open>i + 1\<close> is the base delay times \<^verbatim>\<open>i + 1\<close>, so the waits
  increase strictly for a positive base delay (the constructor sets 2000). When the
  two retries end in 429 as well, the request goes on with Groq and Cohere, exactly as
  the chain over these two does. Groq and Cohere are called at most once, and no wait
  belongs to them.
\<close>

theorem primary_rate_limit_retries:
  assumes key: "configured (googleApiKey svc)" and rl: "rate_limited (gemini net prompt 0)"
  shows "(\<exists>k. 1 \<le> k \<and> k \<le> 2 \<and> (\<forall>i<k. rate_limited (gemini net prompt i))
            \<and> makeGeminiRequest svc net prompt 0 =
                (gemini_once net prompt k, gemini_attempts (requestDelay svc) k))
       \<and> (0 < requestDelay svc \<longrightarrow> sorted_wrt (<) (waits (snd (makeRequest svc net prompt 0))))
       \<and> (rate_limited (gemini net prompt 1) \<and> rate_limited (gemini net prompt 2) \<longrightarrow>
            makeRequest svc net prompt 0 =
              (fst (fallback_chain svc net prompt 0 [Groq, Cohere]),
               gemini_attempts (requestDelay svc) 2
               @ snd (fallback_chain svc net prompt 0 [Groq, Cohere])))
       \<and> waits (snd (fallback_chain svc net prompt 0 [Groq, Cohere])) = []
       \<and> length (filter (\<lambda>p. p = Gemini) (calls (snd (makeRequest svc net prompt 0)))) \<le> 3
       \<and> length (filter (\<lambda>p. p = Groq) (calls (snd (makeRequest svc net prompt 0)))) \<le> 1
       \<and> length (filter (\<lambda>p. p = Cohere) (calls (snd (makeRequest svc net prompt 0)))) \<le> 1"
proof -
  define d where "d = requestDelay svc"
  define rest where "rest = fallback_chain svc net prompt 0 [Groq, Cohere]"
  have g: "\<exists>k. 1 \<le> k \<and> k \<le> 2 \<and> (\<forall>i<k. rate_limited (gemini net prompt i))
            \<and> makeGeminiRequest svc net prompt 0 = (gemini_once net prompt k, gemini_attempts d k)"
  proof (cases "rate_limited (gemini net prompt (Suc 0))")
    case True
    with rl have "\<forall>i<2. rate_limited (gemini net prompt i)"
      by (auto simp: less_Suc_eq numeral_2_eq_2)
    moreover from key rl True
    have "makeGeminiRequest svc net prompt 0 = (gemini_once net prompt 2, gemini_attempts d 2)"
      by (simp add: makeGeminiRequest_attempts d_def)
    ultimately show ?thesis
      by (intro exI [of _ 2]) simp
  next
    case False
    from rl have "\<forall>i<1. rate_limited (gemini net prompt i)"
      by simp
    moreover from key rl False
    have "makeGeminiRequest svc net prompt 0 = (gemini_once net prompt 1, gemini_attempts d 1)"
      by (simp add: makeGeminiRequest_attempts d_def)
    ultimately show ?thesis
      by (intro exI [of _ 1]) simp
  qed
  then obtain k where k: "1 \<le> k" "k \<le> 2"
    and m: "makeGeminiRequest svc net prompt 0 = (gemini_once net prompt k, gemini_attempts d k)"
    by blast
  from k have k12: "k = Suc 0 \<or> k = 2"
    by auto
  have r: "makeRequest svc net prompt 0 =
     (case gemini_once net prompt k of
        Inr v \<Rightarrow> (gemini_once net prompt k, gemini_attempts d k)
      | Inl e \<Rightarrow> (fst rest, gemini_attempts d k @ snd rest))"
    unfolding makeRequest_after_gemini [OF key] m rest_def
    by (cases "gemini_once net prompt k") simp_all
  have wr: "waits (snd rest) = []"
    unfolding rest_def by (rule waits_chain_secondary)
  have w: "waits (snd (makeRequest svc net prompt 0)) = waits (gemini_attempts d k)"
    unfolding r using wr by (cases "gemini_once net prompt k") (simp_all add: waits_append)
  have s: "0 < d \<longrightarrow> sorted_wrt (<) (waits (snd (makeRequest svc net prompt 0)))"
    unfolding w using k12 by (auto simp: waits_attempts)
  have e: "rate_limited (gemini net prompt 1) \<and> rate_limited (gemini net prompt 2) \<longrightarrow>
            makeRequest svc net prompt 0 = (fst rest, gemini_attempts d 2 @ snd rest)"
  proof
    assume a: "rate_limited (gemini net prompt 1) \<and> rate_limited (gemini net prompt 2)"
    with key rl have "makeGeminiRequest svc net prompt 0 = (gemini_once net prompt 2, gemini_attempts d 2)"
      by (simp add: makeGeminiRequest_attempts d_def)
    moreover from a obtain err where "gemini_once net prompt 2 = Inl err"
      using gemini_once_rate_limited by blast
    ultimately show "makeRequest svc net prompt 0 = (fst rest, gemini_attempts d 2 @ snd rest)"
      unfolding makeRequest_after_gemini [OF key] rest_def by simp
  qed
  have c: "calls (snd (makeRequest svc net prompt 0)) = calls (gemini_attempts d k)
           \<or> calls (snd (makeRequest svc net prompt 0)) = calls (gemini_attempts d k) @ calls (snd rest)"
    unfolding r by (cases "gemini_once net prompt k") (simp_all add: calls_append)
  note cs = count_secondary [of svc net prompt 0, folded rest_def]
  from c k12 cs
  have n: "length (filter (\<lambda>p. p = Gemini) (calls (snd (makeRequest svc net prompt 0)))) \<le> 3
       \<and> length (filter (\<lambda>p. p = Groq) (calls (snd (makeRequest svc net prompt 0)))) \<le> 1
       \<and> length (filter (\<lambda>p. p = Cohere) (calls (snd (makeRequest svc net prompt 0)))) \<le> 1"
    by (auto simp: calls_attempts)
  from g s e wr n show ?thesis
    unfolding d_def rest_def by blast
qed

theorem primary_rate_limit_retries_witness:
  "configured (googleApiKey (new_AIService primary_and_groq_keys))
   \<and> rate_limited (gemini throttled ''p'' 0)
   \<and> makeRequest (new_AIService primary_and_groq_keys) throttled ''p'' 0 =
       (Inr (Some (JStr ''[]'')),
        [Call Gemini, Wait 2000, Call Gemini, Wait 4000, Call Gemini, Call Groq])
   \<and> sorted_wrt (<) (waits (snd (makeRequest (new_AIService primary_and_groq_keys) throttled ''p'' 0)))"
proof -
  have key: "configured (googleApiKey (new_AIService primary_and_groq_keys))"
    by (simp add: new_AIService_def primary_and_groq_keys_def configured_def)
  have rl: "rate_limited (gemini throttled ''p'' i)" for i
    by (simp add: throttled_def rate_limited_def)
  have d: "requestDelay (new_AIService primary_and_groq_keys) = 2000"
    by (simp add: new_AIService_def)
  have c: "fallback_chain (new_AIService primary_and_groq_keys) throttled ''p'' 0 [Groq, Cohere]
             = (Inr (Some (JStr ''[]'')), [Call Groq])"
    by code_simp
  note t = primary_rate_limit_retries [OF key rl [of 0]]
  from t have "0 < requestDelay (new_AIService primary_and_groq_keys) \<longrightarrow>
      sorted_wrt (<) (waits (snd (makeRequest (new_AIService primary_and_groq_keys) throttled ''p'' 0)))"
    by blast
  then have s: "sorted_wrt (<) (waits (snd (makeRequest (new_AIService primary_and_groq_keys) throttled ''p'' 0)))"
    unfolding d by simp
  from t rl [of 1] rl [of 2]
  have "makeRequest (new_AIService primary_and_groq_keys) throttled ''p'' 0 =
      (fst (fallback_chain (new_AIService primary_and_groq_keys) throttled ''p'' 0 [Groq, Cohere]),
       gemini_attempts (requestDelay (new_AIService primary_and_groq_keys)) 2
       @ snd (fallback_chain (new_AIService primary_and_groq_keys) throttled ''p'' 0 [Groq, Cohere]))"
    by blast
  then have m: "makeRequest (new_AIService primary_and_groq_keys) throttled ''p'' 0 =
       (Inr (Some (JStr ''[]'')), gemini_attempts 2000 2 @ [Call Groq])"
    unfolding c d by simp
  from key rl [of 0] m s show ?thesis
    by (simp add: gemini_attempts_simps)
qed

text \<open>
  Claim C5. \<^verbatim>\<open>makeRequest\<close> is the chain of the specification over the list Gemini, Groq,
  Cohere: the providers are called in this order, a provider with no key is never
  called, the first provider with a key that returns gives the result and no provider
  after it is called, and when every provider with a key fails (or none has a key) the
  result is the error that all services failed.
\<close>

theorem providers_in_declaration_order:
  "makeRequest svc net prompt retryCount =
     fallback_chain svc net prompt retryCount [Gemini, Groq, Cohere]
   \<and> sorted_wrt (\<lambda>p q. rank p \<le> rank q) (calls (snd (makeRequest svc net prompt retryCount)))
   \<and> (\<forall>p. \<not> has_key svc p \<longrightarrow> p \<notin> set (calls (snd (makeRequest svc net prompt retryCount))))
   \<and> (\<forall>p v. has_key svc p \<and> fst (client svc net prompt retryCount p) = Inr v
          \<and> (\<forall>q. rank q < rank p \<and> has_key svc q
                 \<longrightarrow> (\<exists>e. fst (client svc net prompt retryCount q) = Inl e))
        \<longrightarrow> fst (makeRequest svc net prompt retryCount) = Inr v
            \<and> (\<forall>q. rank p < rank q \<longrightarrow> q \<notin> set (calls (snd (makeRequest svc net prompt retryCount)))))
   \<and> ((\<forall>p. has_key svc p \<longrightarrow> (\<exists>e. fst (client svc net prompt retryCount p) = Inl e))
        \<longrightarrow> makeRequest svc net prompt retryCount =
              (Inl (Error ''All AI services failed''),
               snd (makeRequest svc net prompt retryCount)))"
proof -
  have all: "p \<in> set [Gemini, Groq, Cohere]" for p
    by (cases p) simp_all
  have s: "sorted_wrt (\<lambda>p q. rank p \<le> rank q) [Gemini, Groq, Cohere]"
    by simp
  have d: "distinct [Gemini, Groq, Cohere]"
    by simp
  note c = makeRequest_chain [of svc net prompt retryCount]
  have 1: "sorted_wrt (\<lambda>p q. rank p \<le> rank q) (calls (snd (makeRequest svc net prompt retryCount)))"
    unfolding c using s by (rule chain_sorted)
  have 2: "\<forall>p. \<not> has_key svc p \<longrightarrow> p \<notin> set (calls (snd (makeRequest svc net prompt retryCount)))"
    unfolding c using chain_calls by blast
  have 3: "\<forall>p v. has_key svc p \<and> fst (client svc net prompt retryCount p) = Inr v
          \<and> (\<forall>q. rank q < rank p \<and> has_key svc q
                 \<longrightarrow> (\<exists>e. fst (client svc net prompt retryCount q) = Inl e))
        \<longrightarrow> fst (makeRequest svc net prompt retryCount) = Inr v
            \<and> (\<forall>q. rank p < rank q \<longrightarrow> q \<notin> set (calls (snd (makeRequest svc net prompt retryCount))))"
    unfolding c using chain_first_success [OF d s all] by blast
  have 4: "(\<forall>p. has_key svc p \<longrightarrow> (\<exists>e. fst (client svc net prompt retryCount p) = Inl e))
        \<longrightarrow> makeRequest svc net prompt retryCount =
              (Inl (Error ''All AI services failed''),
               snd (makeRequest svc net prompt retryCount))"
  proof
    assume "\<forall>p. has_key svc p \<longrightarrow> (\<exists>e. fst (client svc net prompt retryCount p) = Inl e)"
    then have "fst (fallback_chain svc net prompt retryCount [Gemini, Groq, Cohere])
      = Inl (Error ''All AI services failed'')"
      by (intro chain_all_fail) blast
    then show "makeRequest svc net prompt retryCount =
              (Inl (Error ''All AI services failed''),
               snd (makeRequest svc net prompt retryCount))"
      unfolding c by (metis prod.collapse)
  qed
  from c 1 2 3 4 show ?thesis
    by blast
qed

theorem providers_in_declaration_order_witness:
  "\<not> has_key (new_AIService secondary_keys) Gemini
   \<and> has_key (new_AIService secondary_keys) Cohere
   \<and> fst (makeRequest (new_AIService secondary_keys) groq_down ''p'' 0) = Inr (Some (JStr ''ok''))
   \<and> Gemini \<notin> set (calls (snd (makeRequest (new_AIService secondary_keys) groq_down ''p'' 0)))"
proof -
  let ?svc = "new_AIService secondary_keys"
  have g: "\<not> has_key ?svc Gemini"
    by (simp add: has_key_def new_AIService_def secondary_keys_def configured_def)
  have k: "has_key ?svc Cohere"
    by (simp add: has_key_def new_AIService_def secondary_keys_def configured_def)
  have c: "fst (client ?svc groq_down ''p'' 0 Cohere) = Inr (Some (JStr ''ok''))"
    by code_simp
  have q: "\<exists>e. fst (client ?svc groq_down ''p'' 0 Groq) = Inl e"
    by (simp add: client_def makeGroqRequest_def groq_down_def ok_def new_AIService_def
        secondary_keys_def configured_def)
  have e: "\<forall>q. rank q < rank Cohere \<and> has_key ?svc q \<longrightarrow>
             (\<exists>e. fst (client ?svc groq_down ''p'' 0 q) = Inl e)"
  proof (intro allI impI)
    fix p
    assume "rank p < rank Cohere \<and> has_key ?svc p"
    with g q show "\<exists>e. fst (client ?svc groq_down ''p'' 0 p) = Inl e"
      by (cases p) auto
  qed
  from providers_in_declaration_order [of ?svc groq_down "''p''" 0] g k c e
  have "fst (makeRequest ?svc groq_down ''p'' 0) = Inr (Some (JStr ''ok''))"
    and "Gemini \<notin> set (calls (snd (makeRequest ?svc groq_down ''p'' 0)))"
    by blast+
  with g k show ?thesis
    by simp
qed

section \<open>Properties of the generation operations\<close>

lemma generation_never_fails:
  "(\<exists>s. generateSummary svc net txt lvl = Inr s)
   \<and> (\<exists>q. generateQuiz json_parse svc net txt = Inr q)
   \<and> (\<exists>c. generateFlashcards json_parse svc net txt = Inr c)"
proof -
  have s: "\<exists>s. generateSummary svc net txt lvl = Inr s"
    by (auto simp: generateSummary_def try_catch_def split: sum.splits)
  have q: "\<exists>q. generateQuiz json_parse svc net txt = Inr q"
    by (auto simp: generateQuiz_def try_catch_def split: sum.splits)
  obtain cards where "generateFallbackFlashcards txt = Inr cards"
    using generateFallbackFlashcards_total by blast
  then have c: "\<exists>c. generateFlashcards json_parse svc net txt = Inr c"
    by (auto simp: generateFlashcards_def try_catch_def split: sum.splits)
  from s q c show ?thesis
    by blast
qed

lemma generation_falls_back:
  "fst (makeRequest svc net (summary_prompt txt lvl) 0) = Inl e1 \<Longrightarrow>
     generateSummary svc net txt lvl = Inr (generateFallbackSummary txt lvl)"
  "fst (makeRequest svc net (quiz_prompt txt) 0) = Inl e2 \<Longrightarrow>
     generateQuiz json_parse svc net txt = Inr (generateFallbackQuiz txt)"
  "fst (makeRequest svc net (flashcard_prompt txt) 0) = Inl e3 \<Longrightarrow>
     generateFlashcards json_parse svc net txt = generateFallbackFlashcards txt"
  by (simp_all add: generateSummary_def generateQuiz_def generateFlashcards_def try_catch_def
      bind_err_def)

lemma parse_failure_falls_back:
  "fst (makeRequest svc net (quiz_prompt txt) 0) = Inr response \<Longrightarrow>
   parseQuizResponse json_parse response = Inl e \<Longrightarrow>
     generateQuiz json_parse svc net txt = Inr (generateFallbackQuiz txt)"
  "fst (makeRequest svc net (flashcard_prompt txt) 0) = Inr response \<Longrightarrow>
   parseFlashcardResponse json_parse response = Inl e \<Longrightarrow>
     generateFlashcards json_parse svc net txt = generateFallbackFlashcards txt"
  by (simp_all add: generateQuiz_def generateFlashcards_def try_catch_def bind_err_def)

lemma makeRequest_no_keys:
  "makeRequest (new_AIService no_keys) net prompt retryCount =
     (Inl (Error ''All AI services failed''), [])"
  by (simp add: makeRequest_def try_provider_def new_AIService_def no_keys_def configured_def)

lemma makeRequest_server_no_key:
  "\<not> configured (apiKey svc) \<Longrightarrow>
   makeRequest_server svc fetch prompt retryCount = (Inl (Error ''API key not configured''), [])"
  by (subst makeRequest_server.simps) simp

lemma generateQuiz_server_throws:
  "fst (makeRequest_server svc fetch (quiz_prompt txt) 0) = Inl e \<Longrightarrow>
   generateQuiz_server json_parse svc fetch txt = Inl TypeError"
  "fst (makeRequest_server svc fetch (quiz_prompt txt) 0) = Inr response \<Longrightarrow>
   parseQuizResponse json_parse response = Inl e \<Longrightarrow>
   generateQuiz_server json_parse svc fetch txt = Inl TypeError"
  by (simp_all add: generateQuiz_server_def try_catch_def bind_err_def)

text \<open>
  Claim C1. In part\_001 the claim holds (the three lemmas above: no operation fails, and
  a failed chain or a failed parse gives the output of the fallback generator). In
  server.js it does not hold for \<^verbatim>\<open>generateQuiz\<close>: with no key configured the request
  fails, the \<^verbatim>\<open>catch\<close> block calls a method the class does not have, and the operation
  ends in a TypeError, where the same operation of part\_001 returns the fallback quiz.
\<close>

theorem server_generateQuiz_no_fallback:
  "generateQuiz_server json_parse (new_AIService_server no_keys) fetch txt = Inl TypeError
   \<and> generateQuiz json_parse (new_AIService no_keys) net txt = Inr (generateFallbackQuiz txt)"
proof -
  have "\<not> configured (apiKey (new_AIService_server no_keys))"
    by (simp add: new_AIService_server_def no_keys_def configured_def)
  then have "fst (makeRequest_server (new_AIService_server no_keys) fetch (quiz_prompt txt) 0)
      = Inl (Error ''API key not configured'')"
    by (simp add: makeRequest_server_no_key)
  then have a: "generateQuiz_server json_parse (new_AIService_server no_keys) fetch txt = Inl TypeError"
    by (rule generateQuiz_server_throws(1))
  have b: "generateQuiz json_parse (new_AIService no_keys) net txt = Inr (generateFallbackQuiz txt)"
    by (rule generation_falls_back(2)) (simp add: makeRequest_no_keys)
  from a b show ?thesis
    by simp
qed

section \<open>Properties of the entry points\<close>

lemma trim_nonempty: "c \<in> set t \<Longrightarrow> \<not> is_space c \<Longrightarrow> trim t \<noteq> []"
proof -
  assume c: "c \<in> set t" and n: "\<not> is_space c"
  then have "dropWhile is_space t \<noteq> []"
    by (auto simp: dropWhile_eq_Nil_conv)
  moreover have "c \<in> set (dropWhile is_space t)"
    using c n by (induction t) auto
  ultimately have "dropWhile is_space (rev (dropWhile is_space t)) \<noteq> []"
    using n by (auto simp: dropWhile_eq_Nil_conv)
  then show ?thesis
    by (simp add: trim_def)
qed

lemma generate_all_success:
  "\<exists>s q c. generateSummary svc net_s u l = Inr s
     \<and> generateQuiz json_parse svc net_q u = Inr q
     \<and> generateFlashcards json_parse svc net_f u = Inr c
     \<and> generate_all json_parse svc net_s net_q net_f u (Some (JStr l)) msg =
         Success \<lparr>originalText = u, summary = s, quiz = q, flashcards = c,
                  textLength = length u, level = l\<rparr>"
proof -
  from generation_never_fails [of svc net_s u l json_parse]
  obtain s where s: "generateSummary svc net_s u l = Inr s" by blast
  from generation_never_fails [of svc net_q u l json_parse]
  obtain q where q: "generateQuiz json_parse svc net_q u = Inr q" by blast
  from generation_never_fails [of svc net_f u l json_parse]
  obtain c where c: "generateFlashcards json_parse svc net_f u = Inr c" by blast
  from s q c show ?thesis
    by (simp add: generate_all_def)
qed

text \<open>
  Claim C10. A text of more than 10,000 characters that is submitted directly is
  answered with the status 400 (with the message that the text is too long, unless the
  text is white space only, which is answered as a missing text). The same text
  extracted from an uploaded PDF or Word file is cut to its first 10,000 characters
  followed by three dots, and the materials are generated from the cut text: for a level
  that is a string the answer is a success whose original text is the cut text, of
  length 10,003.
\<close>

theorem long_input_rejected_or_truncated:
  assumes "length t > 10000"
  shows "process_text json_parse svc net_s net_q net_f (Some (JStr t)) lvl =
           Failure 400 (if trim t = [] then ''Text content is required''
                        else ''Text too long. Maximum 10,000 characters allowed.'')
       \<and> (trim t \<noteq> [] \<and> mimetype f \<in> set allowedTypes
            \<and> (mimetype f = ''application/pdf'' \<or> js_includes (mimetype f) ''word'')
            \<and> extraction f = Inr (Some (JStr t)) \<longrightarrow>
          process_file json_parse svc net_s net_q net_f (Some f) lvl =
            generate_all json_parse svc net_s net_q net_f (take 10000 t @ ''...'')
              (default_level lvl) ''Failed to process file''
          \<and> (\<forall>l. default_level lvl = Some (JStr l) \<longrightarrow>
               (\<exists>s q c. generateSummary svc net_s (take 10000 t @ ''...'') l = Inr s
                  \<and> generateQuiz json_parse svc net_q (take 10000 t @ ''...'') = Inr q
                  \<and> generateFlashcards json_parse svc net_f (take 10000 t @ ''...'') = Inr c
                  \<and> process_file json_parse svc net_s net_q net_f (Some f) lvl =
                      Success \<lparr>originalText = take 10000 t @ ''...'', summary = s, quiz = q,
                               flashcards = c, textLength = 10003, level = l\<rparr>)))"
proof -
  from assms have ne: "t \<noteq> []"
    by auto
  have a: "process_text json_parse svc net_s net_q net_f (Some (JStr t)) lvl =
           Failure 400 (if trim t = [] then ''Text content is required''
                        else ''Text too long. Maximum 10,000 characters allowed.'')"
    using assms ne by (simp add: process_text_def)
  have b: "process_file json_parse svc net_s net_q net_f (Some f) lvl =
            generate_all json_parse svc net_s net_q net_f (take 10000 t @ ''...'')
              (default_level lvl) ''Failed to process file''"
    if "trim t \<noteq> []" "mimetype f \<in> set allowedTypes"
      "mimetype f = ''application/pdf'' \<or> js_includes (mimetype f) ''word''"
      "extraction f = Inr (Some (JStr t))"
    using that assms ne by (simp add: process_file_def substring_def)
  have c: "\<exists>s q c. generateSummary svc net_s (take 10000 t @ ''...'') l = Inr s
                  \<and> generateQuiz json_parse svc net_q (take 10000 t @ ''...'') = Inr q
                  \<and> generateFlashcards json_parse svc net_f (take 10000 t @ ''...'') = Inr c
                  \<and> generate_all json_parse svc net_s net_q net_f (take 10000 t @ ''...'')
                       (Some (JStr l)) ''Failed to process file'' =
                      Success \<lparr>originalText = take 10000 t @ ''...'', summary = s, quiz = q,
                               flashcards = c, textLength = 10003, level = l\<rparr>" for l
    using generate_all_success [of svc net_s "take 10000 t @ ''...''" l json_parse net_q net_f
        "''Failed to process file''"] assms
    by (simp add: min_def)
  from a b c show ?thesis
    by (metis (no_types, lifting))
qed

theorem long_input_rejected_or_truncated_witness:
  "length (replicate 10001 (CHR ''a'')) > 10000
   \<and> process_text JSON_parse (new_AIService no_keys) offline offline offline
        (Some (JStr (replicate 10001 (CHR ''a'')))) None =
       Failure 400 ''Text too long. Maximum 10,000 characters allowed.''
   \<and> (\<exists>m. process_file JSON_parse (new_AIService no_keys) offline offline offline
              (Some \<lparr>mimetype = ''application/pdf'',
                     extraction = Inr (Some (JStr (replicate 10001 (CHR ''a''))))\<rparr>) None
            = Success m
          \<and> originalText m = replicate 10000 (CHR ''a'') @ ''...''
          \<and> textLength m = 10003 \<and> level m = ''high-school'')"
proof -
  define t where "t = replicate 10001 (CHR ''a'')"
  define f where "f = \<lparr>mimetype = ''application/pdf'', extraction = Inr (Some (JStr t))\<rparr>"
  have len: "length t > 10000"
    by (simp add: t_def)
  have "CHR ''a'' \<in> set t"
    by (simp add: t_def)
  moreover have "\<not> is_space (CHR ''a'')"
    by (simp add: is_space_def)
  ultimately have tr: "trim t \<noteq> []"
    by (rule trim_nonempty)
  have mem: "mimetype f \<in> set allowedTypes"
    by (simp add: f_def allowedTypes_def)
  have pdf: "mimetype f = ''application/pdf'' \<or> js_includes (mimetype f) ''word''"
    by (simp add: f_def)
  have ex: "extraction f = Inr (Some (JStr t))"
    by (simp add: f_def)
  have lv: "default_level None = Some (JStr ''high-school'')"
    by (simp add: default_level_def)
  have tk: "take 10000 t = replicate 10000 (CHR ''a'')"
    by (simp add: t_def)
  note inst = long_input_rejected_or_truncated [OF len, of JSON_parse "new_AIService no_keys"
      offline offline offline None f]
  from inst tr have a: "process_text JSON_parse (new_AIService no_keys) offline offline offline
        (Some (JStr t)) None = Failure 400 ''Text too long. Maximum 10,000 characters allowed.''"
    by simp
  from inst tr mem pdf ex lv
  obtain s q c where "process_file JSON_parse (new_AIService no_keys) offline offline offline
      (Some f) None =
      Success \<lparr>originalText = take 10000 t @ ''...'', summary = s, quiz = q,
               flashcards = c, textLength = 10003, level = ''high-school''\<rparr>"
    by blast
  then have b: "\<exists>m. process_file JSON_parse (new_AIService no_keys) offline offline offline
              (Some f) None = Success m
          \<and> originalText m = replicate 10000 (CHR ''a'') @ ''...''
          \<and> textLength m = 10003 \<and> level m = ''high-school''"
    by (simp add: tk)
  from len a b show ?thesis
    unfolding t_def f_def by blast
qed

end
